theory Spec2Isabelle
  imports Complex_Main
begin

section \<open>Python numbers: unbounded ints and binary64 floats\<close>

text \<open>
  The planner receives \<open>land_cents\<close> as a Python \<open>int\<close> (\<open>views.result\<close> parses it with
  \<open>int(request.POST.get('land_cents', 1))\<close>), so it is modelled as \<open>int\<close>.  The square
  footage \<open>land_cents * 435.6\<close> is a Python \<open>float\<close>: an IEEE 754 binary64 number.  A finite
  float is modelled by its exact rational value; the sign of zero is not modelled (the
  product of an int and 435.6 is never \<open>-0.0\<close>).
\<close>

datatype py_error = OverflowError | ValueError

datatype py_float = Finite rat | PosInf | NegInf | NaN

text \<open>\<open>n.bit_length()\<close> of a positive int (0 for the others).\<close>

function bit_length :: "int \<Rightarrow> int" where
  "bit_length n = (if n \<le> 0 then 0 else 1 + bit_length (n div 2))"
  by pat_completeness auto
termination
  by (relation "measure nat") auto

declare bit_length.simps [simp del]

text \<open>The binary exponent \<open>\<lfloor>log\<^sub>2 |x|\<rfloor>\<close> of a non-zero rational.\<close>

definition ilog2 :: "rat \<Rightarrow> int" where
  "ilog2 x =
     (let p = fst (quotient_of \<bar>x\<bar>); q = snd (quotient_of \<bar>x\<bar>);
          d = bit_length p - bit_length q
      in if 2 powi d \<le> \<bar>x\<bar> then d else d - 1)"

text \<open>Rounding to the nearest integer, ties to the even one.\<close>

definition round_half_even :: "rat \<Rightarrow> int" where
  "round_half_even x =
     (let f = \<lfloor>x\<rfloor>; r = x - of_int f
      in if r < 1 / 2 then f
         else if 1 / 2 < r then f + 1
         else if even f then f else f + 1)"

text \<open>
  The spacing of binary64 numbers around \<open>x\<close>: 53 significant bits, and the fixed spacing
  \<open>2\<^sup>-\<^sup>1\<^sup>0\<^sup>7\<^sup>4\<close> of the subnormal range below \<open>2\<^sup>-\<^sup>1\<^sup>0\<^sup>2\<^sup>2\<close>.
\<close>

definition quantum :: "rat \<Rightarrow> rat" where
  "quantum x = 2 powi (max (ilog2 x) (- 1022) - 52)"

definition round_nearest :: "rat \<Rightarrow> rat" where
  "round_nearest x = (if x = 0 then 0 else of_int (round_half_even (x / quantum x)) * quantum x)"

text \<open>Every finite binary64 number is smaller than \<open>2\<^sup>1\<^sup>0\<^sup>2\<^sup>4\<close> in magnitude.\<close>

definition binary64_limit :: rat where
  "binary64_limit = 2 powi 1024"

text \<open>Round to nearest, ties to even, overflowing to an infinity: the result of a float
  operation whose exact value is \<open>x\<close>.\<close>

definition round_to_binary64 :: "rat \<Rightarrow> py_float" where
  "round_to_binary64 x =
     (let y = round_nearest x
      in if binary64_limit \<le> y then PosInf
         else if y \<le> - binary64_limit then NegInf
         else Finite y)"

text \<open>
  Exact values of this magnitude or more round to an infinity: it is the midpoint between
  the largest finite binary64 number and \<open>2\<^sup>1\<^sup>0\<^sup>2\<^sup>4\<close>.  \<open>float_int_limit\<close> is the same
  number as an int.  Neither is used by the model; the theorems state ranges with them.
\<close>

definition overflow_threshold :: rat where
  "overflow_threshold = binary64_limit - 2 powi 970"

definition float_int_limit :: int where
  "float_int_limit = 2 ^ 1024 - 2 ^ 970"

text \<open>The exponent that fixes the spacing at \<open>x\<close> (used in the proofs only).\<close>

definition fexp :: "rat \<Rightarrow> int" where
  "fexp x = max (ilog2 x) (- 1022)"

text \<open>\<open>float(n)\<close> for an int, as in \<open>PyLong_AsDouble\<close>: correctly rounded, and
  \<open>OverflowError\<close> ("int too large to convert to float") when the rounded value is not
  finite.\<close>

definition int_to_float :: "int \<Rightarrow> py_error + py_float" where
  "int_to_float n =
     (case round_to_binary64 (of_int n) of
        Finite y \<Rightarrow> Inr (Finite y)
      | _ \<Rightarrow> Inl OverflowError)"

text \<open>Float multiplication; it never raises, an overflow gives an infinity.\<close>

fun float_mul :: "py_float \<Rightarrow> py_float \<Rightarrow> py_float" where
  "float_mul (Finite a) (Finite b) = round_to_binary64 (a * b)"
| "float_mul NaN _ = NaN"
| "float_mul _ NaN = NaN"
| "float_mul PosInf (Finite b) = (if 0 < b then PosInf else if b < 0 then NegInf else NaN)"
| "float_mul NegInf (Finite b) = (if 0 < b then NegInf else if b < 0 then PosInf else NaN)"
| "float_mul (Finite a) PosInf = (if 0 < a then PosInf else if a < 0 then NegInf else NaN)"
| "float_mul (Finite a) NegInf = (if 0 < a then NegInf else if a < 0 then PosInf else NaN)"
| "float_mul PosInf PosInf = PosInf"
| "float_mul NegInf NegInf = PosInf"
| "float_mul PosInf NegInf = NegInf"
| "float_mul NegInf PosInf = NegInf"

text \<open>\<open>n * y\<close> for an int \<open>n\<close> and a float \<open>y\<close>: \<open>float.__rmul__\<close> converts the int first.\<close>

definition int_mul_float :: "int \<Rightarrow> py_float \<Rightarrow> py_error + py_float" where
  "int_mul_float n y =
     (case int_to_float n of Inl e \<Rightarrow> Inl e | Inr x \<Rightarrow> Inr (float_mul x y))"

text \<open>The float literal \<open>435.6\<close>: the binary64 number nearest to 4356/10.\<close>

definition c435_6 :: py_float where
  "c435_6 = round_to_binary64 (4356 / 10)"

text \<open>\<open>x <= k\<close> for a float and an int: Python compares the exact values; every comparison
  with a NaN is false.\<close>

fun float_le_int :: "py_float \<Rightarrow> int \<Rightarrow> bool" where
  "float_le_int (Finite r) k = (r \<le> of_int k)"
| "float_le_int PosInf k = False"
| "float_le_int NegInf k = True"
| "float_le_int NaN k = False"

text \<open>\<open>x > k\<close> for a float and an int.  The source only writes \<open><=\<close>; the claims speak of
  \<open>sqft > 2000\<close>, which is this.\<close>

fun float_gt_int :: "py_float \<Rightarrow> int \<Rightarrow> bool" where
  "float_gt_int (Finite r) k = (of_int k < r)"
| "float_gt_int PosInf k = True"
| "float_gt_int NegInf k = False"
| "float_gt_int NaN k = False"

text \<open>\<open>x <= y\<close> for two floats.\<close>

fun float_le :: "py_float \<Rightarrow> py_float \<Rightarrow> bool" where
  "float_le (Finite a) (Finite b) = (a \<le> b)"
| "float_le NaN _ = False"
| "float_le _ NaN = False"
| "float_le NegInf _ = True"
| "float_le _ PosInf = True"
| "float_le PosInf _ = False"
| "float_le _ NegInf = False"

text \<open>\<open>round(x)\<close> of a float, an int: ties go to the even neighbour; an infinity raises
  \<open>OverflowError\<close> and a NaN \<open>ValueError\<close>.\<close>

fun py_round :: "py_float \<Rightarrow> py_error + int" where
  "py_round (Finite r) = Inr (round_half_even r)"
| "py_round PosInf = Inl OverflowError"
| "py_round NegInf = Inl OverflowError"
| "py_round NaN = Inl ValueError"

text \<open>The decimal digits of a non-negative int, and \<open>str(n)\<close>.\<close>

function decimal :: "int \<Rightarrow> string" where
  "decimal n =
     (if n < 10 then [''0123456789'' ! nat n]
      else decimal (n div 10) @ [''0123456789'' ! nat (n mod 10)])"
  by pat_completeness auto
termination
  by (relation "measure nat") auto

declare decimal.simps [simp del]

definition py_str_int :: "int \<Rightarrow> string" where
  "py_str_int n = (if n < 0 then ''-'' @ decimal (- n) else decimal n)"

text \<open>\<open>f"{x:.0f}"\<close>: the float rounded to an integer, ties to even, in decimal; a negative
  value that rounds to zero keeps its sign.\<close>

fun format_0f :: "py_float \<Rightarrow> string" where
  "format_0f (Finite r) =
     (let k = round_half_even r
      in if k = 0 \<and> r < 0 then ''-0'' else py_str_int k)"
| "format_0f PosInf = ''inf''"
| "format_0f NegInf = ''-inf''"
| "format_0f NaN = ''nan''"

section \<open>planner/logic/floor\_plan.py\<close>

definition get_house_type :: "int \<Rightarrow> string" where
  "get_house_type land_cents =
     (if land_cents \<le> 5 then ''Single Floor House''
      else if land_cents \<le> 10 then ''Duplex''
      else ''Villa'')"

text \<open>The dict returned by \<open>calculate_room_config\<close>; every branch builds the same seven keys.\<close>

record room_config =
  Bedrooms :: int
  Bathrooms :: int
  Kitchen :: int
  Hall :: int
  Parking :: string
  Balcony :: string
  Total_Area :: string

text \<open>The branches of \<open>calculate_room_config\<close> once \<open>sqft\<close> is bound.\<close>

definition room_config_of_sqft :: "py_float \<Rightarrow> room_config" where
  "room_config_of_sqft sqft =
     (if float_le_int sqft 1000 then
        \<lparr>Bedrooms = 2, Bathrooms = 1, Kitchen = 1, Hall = 1,
         Parking = ''1 compact'', Balcony = ''Small balcony'',
         Total_Area = format_0f sqft @ '' sq ft''\<rparr>
      else if float_le_int sqft 2000 then
        \<lparr>Bedrooms = 3, Bathrooms = 2, Kitchen = 1, Hall = 1,
         Parking = ''1 car'', Balcony = ''Medium balcony'',
         Total_Area = format_0f sqft @ '' sq ft''\<rparr>
      else
        \<lparr>Bedrooms = 4, Bathrooms = 3, Kitchen = 2, Hall = 2,
         Parking = ''2-car garage'', Balcony = ''Large balcony + terrace'',
         Total_Area = format_0f sqft @ '' sq ft''\<rparr>)"

definition calculate_room_config :: "int \<Rightarrow> py_error + room_config" where
  "calculate_room_config land_cents =
     (case int_mul_float land_cents c435_6 of
        Inl e \<Rightarrow> Inl e
      | Inr sqft \<Rightarrow> Inr (room_config_of_sqft sqft))"

section \<open>planner/logic/blender\_3d.py, without the Blender API\<close>

text \<open>
  \<open>BLENDER_AVAILABLE\<close> is \<open>False\<close> wherever \<open>bpy\<close> cannot be imported.  The two functions
  below are the bodies under \<open>if not BLENDER_AVAILABLE:\<close>; the scene construction of the
  other path is calls into Blender and is not modelled.  \<open>house_type\<close> and \<open>room_config\<close>
  are the arguments as passed by the callers.
\<close>

definition create_floor_plan :: "int \<Rightarrow> string \<Rightarrow> room_config \<Rightarrow> py_error + int \<times> int" where
  "create_floor_plan land_cents house_type rc =
     (case int_mul_float land_cents c435_6 of
        Inl e \<Rightarrow> Inl e
      | Inr sqft \<Rightarrow>
          if float_le_int sqft 1000 then Inr (30, 35)
          else if float_le_int sqft 2000 then Inr (40, 50)
          else Inr (50, 70))"

definition create_detailed_floor_plan ::
    "int \<Rightarrow> string \<Rightarrow> room_config \<Rightarrow> py_error + int \<times> int" where
  "create_detailed_floor_plan land_cents house_type rc =
     (case int_mul_float land_cents c435_6 of
        Inl e \<Rightarrow> Inl e
      | Inr sqft \<Rightarrow>
          if float_le_int sqft 1000 then Inr (30, 35)
          else if float_le_int sqft 2000 then Inr (40, 50)
          else Inr (50, 70))"


section \<open>planner/views.py\<close>

text \<open>\<open>int(round(land_cents * 435.6))\<close>, the square footage shown by the views.\<close>

definition view_sqft :: "int \<Rightarrow> py_error + int" where
  "view_sqft land_cents =
     (case int_mul_float land_cents c435_6 of
        Inl e \<Rightarrow> Inl e
      | Inr x \<Rightarrow> py_round x)"

text \<open>
  The fallback path of \<open>result\<close> up to the choice of the GLB.  The path first runs
  \<open>room_config = calculate_room_config(land_cents)\<close>, outside any \<open>try\<close>: when that raises,
  the exception leaves the view and no file is chosen.  The calls between it and the chain
  (\<open>get_house_type\<close>, \<open>get_front_design\<close>, \<open>get_color_scheme\<close>,
  \<open>get_modern_design_elements\<close>, \<open>generate_3d_house\<close> without Blender) return for every
  argument and take no part in the choice.  Creating the output directory and copying the
  file are calls into the file system and are not modelled.
\<close>

definition result_source_glb :: "int \<Rightarrow> py_error + string" where
  "result_source_glb land_cents =
     (case calculate_room_config land_cents of
        Inl e \<Rightarrow> Inl e
      | Inr room_config \<Rightarrow>
          Inr (if land_cents \<le> 3 then ''1bhk.glb''
               else if 4 \<le> land_cents \<and> land_cents \<le> 6 then ''2bhk.glb''
               else if 7 \<le> land_cents \<and> land_cents \<le> 10 then ''3bhk.glb''
               else ''villa.glb''))"

text \<open>The fallback GLB chosen by \<open>download_3d_model\<close>, for an int \<open>land_cents\<close> read back
  from the saved project data.\<close>

definition download_source_glb :: "int \<Rightarrow> string" where
  "download_source_glb land_cents =
     (if land_cents \<le> 3 then ''1bhk.glb''
      else if 4 \<le> land_cents \<and> land_cents \<le> 6 then ''2bhk.glb''
      else if 7 \<le> land_cents \<and> land_cents \<le> 10 then ''3bhk.glb''
      else ''villa.glb'')"

text \<open>\<open>str.upper()\<close> and \<open>str.startswith\<close> on ASCII strings.\<close>

definition upper_char :: "char \<Rightarrow> char" where
  "upper_char c =
     (let k = (of_char c :: nat) in if 97 \<le> k \<and> k \<le> 122 then char_of (k - 32) else c)"

definition py_upper :: "string \<Rightarrow> string" where
  "py_upper s = map upper_char s"

definition startswith :: "string \<Rightarrow> string \<Rightarrow> bool" where
  "startswith s p = (take (length p) s = p)"

text \<open>
  The fallback reports of \<open>result\<close>.  Each of the three texts is chosen by the same chain of
  tests on \<open>str(house_type).upper()\<close>; the variant is what is modelled, together with the
  \<open>sqft\<close> that the Villa texts print.
\<close>

datatype report_variant = Variant_1BHK | Variant_2BHK | Variant_3BHK | Variant_Villa

definition summary_variant :: "string \<Rightarrow> report_variant" where
  "summary_variant house_type =
     (if startswith (py_upper house_type) ''1BHK'' then Variant_1BHK
      else if startswith (py_upper house_type) ''2BHK'' then Variant_2BHK
      else if startswith (py_upper house_type) ''3BHK'' then Variant_3BHK
      else Variant_Villa)"

definition technical_variant :: "string \<Rightarrow> report_variant" where
  "technical_variant house_type =
     (if startswith (py_upper house_type) ''1BHK'' then Variant_1BHK
      else if startswith (py_upper house_type) ''2BHK'' then Variant_2BHK
      else if startswith (py_upper house_type) ''3BHK'' then Variant_3BHK
      else Variant_Villa)"

definition cost_variant :: "string \<Rightarrow> report_variant" where
  "cost_variant house_type =
     (if startswith (py_upper house_type) ''1BHK'' then Variant_1BHK
      else if startswith (py_upper house_type) ''2BHK'' then Variant_2BHK
      else if startswith (py_upper house_type) ''3BHK'' then Variant_3BHK
      else Variant_Villa)"

record report_set =
  report_sqft :: int
  summary :: report_variant
  technical :: report_variant
  cost :: report_variant

text \<open>
  The fallback path of \<open>result\<close> up to its reports.  As above,
  \<open>calculate_room_config(land_cents)\<close> runs first and outside any \<open>try\<close>.  The report block
  itself runs inside \<open>try: ... except Exception: pass\<close>, and its first computation is
  \<open>sqft = int(round(land_cents * 435.6))\<close>: when that raises, no report is built (\<open>None\<close>)
  and the view goes on.  \<open>house_type\<close> is the value of \<open>get_house_type(land_cents)\<close>.
  Writing the texts to files is outside the model.
\<close>

definition fallback_reports :: "int \<Rightarrow> py_error + report_set option" where
  "fallback_reports land_cents =
     (let house_type = get_house_type land_cents
      in case calculate_room_config land_cents of
           Inl e \<Rightarrow> Inl e
         | Inr room_config \<Rightarrow>
             Inr (case view_sqft land_cents of
                    Inl e \<Rightarrow> None
                  | Inr sqft \<Rightarrow>
                      Some \<lparr>report_sqft = sqft,
                            summary = summary_variant house_type,
                            technical = technical_variant house_type,
                            cost = cost_variant house_type\<rparr>))"

section \<open>Facts about binary64 rounding\<close>

lemma bit_length_bounds:
  "0 < n \<Longrightarrow> 1 \<le> bit_length n \<and> 2 ^ nat (bit_length n - 1) \<le> n \<and> n < 2 ^ nat (bit_length n)"
proof (induction n rule: bit_length.induct)
  case (1 n)
  show ?case
  proof (cases "n div 2 = 0")
    case True
    with "1.prems" have n1: "n = 1" by presburger
    have "bit_length 1 = 1"
      by (simp add: bit_length.simps [of 1] bit_length.simps [of 0])
    with n1 show ?thesis by simp
  next
    case False
    with "1.prems" have pos: "0 < n div 2" by presburger
    from "1.prems" have nle: "\<not> n \<le> 0" by simp
    from "1.IH" [OF nle pos]
    have ih: "1 \<le> bit_length (n div 2)"
      "2 ^ nat (bit_length (n div 2) - 1) \<le> n div 2"
      "n div 2 < 2 ^ nat (bit_length (n div 2))" by simp_all
    have bl: "bit_length n = 1 + bit_length (n div 2)"
      using nle by (simp add: bit_length.simps [of n])
    have e1: "nat (bit_length n - 1) = Suc (nat (bit_length (n div 2) - 1))"
      using ih(1) bl by simp
    have e2: "nat (bit_length n) = Suc (nat (bit_length (n div 2)))"
      using ih(1) bl by simp
    have "2 * 2 ^ nat (bit_length (n div 2) - 1) \<le> 2 * (n div 2)" using ih(2) by simp
    also have "\<dots> \<le> n" by presburger
    finally have lo: "2 ^ nat (bit_length n - 1) \<le> n" by (simp add: e1)
    have "n div 2 + 1 \<le> 2 ^ nat (bit_length (n div 2))" using ih(3) by simp
    then have "2 * (n div 2 + 1) \<le> 2 * 2 ^ nat (bit_length (n div 2))" by simp
    moreover have "n < 2 * (n div 2 + 1)" by presburger
    ultimately have hi: "n < 2 ^ nat (bit_length n)" by (simp add: e2)
    from lo hi bl ih(1) show ?thesis by simp
  qed
qed

lemma two_powi_pos [simp]: "0 < (2::rat) powi k"
  by (simp add: power_int_def)

lemma two_powi_mono: "a \<le> b \<Longrightarrow> (2::rat) powi a \<le> 2 powi b"
  by (rule power_int_increasing) simp_all

lemma two_powi_strict_mono: "a < b \<Longrightarrow> (2::rat) powi a < 2 powi b"
  by (rule power_int_strict_increasing) simp_all

lemma two_powi_le_iff: "(2::rat) powi a \<le> 2 powi b \<longleftrightarrow> a \<le> b"
  using two_powi_mono [of a b] two_powi_strict_mono [of b a] by (auto simp: not_le [symmetric])

lemma two_powi_less_iff: "(2::rat) powi a < 2 powi b \<longleftrightarrow> a < b"
  using two_powi_mono [of b a] two_powi_strict_mono [of a b] by (auto simp: not_less [symmetric])

lemma two_powi_Suc: "(2::rat) powi (k + 1) = 2 * 2 powi k"
  by (simp add: power_int_add)

lemma ilog2_bounds:
  assumes "x \<noteq> 0"
  shows "2 powi ilog2 x \<le> \<bar>x\<bar> \<and> \<bar>x\<bar> < 2 powi (ilog2 x + 1)"
proof -
  obtain p q where pq: "quotient_of \<bar>x\<bar> = (p, q)" by (cases "quotient_of \<bar>x\<bar>") auto
  have q: "0 < q" using pq quotient_of_denom_pos by blast
  have ax: "\<bar>x\<bar> = of_int p / of_int q" using pq by (rule quotient_of_div)
  have "0 < \<bar>x\<bar>" using assms by simp
  with ax q have p: "0 < p" by (simp add: zero_less_divide_iff)
  define a where "a = bit_length p"
  define b where "b = bit_length q"
  from bit_length_bounds [OF p] have a: "1 \<le> a" "2 ^ nat (a - 1) \<le> p" "p < 2 ^ nat a"
    by (simp_all add: a_def)
  from bit_length_bounds [OF q] have b: "1 \<le> b" "2 ^ nat (b - 1) \<le> q" "q < 2 ^ nat b"
    by (simp_all add: b_def)
  have pa_lo: "(2::rat) powi (a - 1) \<le> of_int p"
  proof -
    have "(of_int (2 ^ nat (a - 1)) :: rat) \<le> of_int p" using a(2) by (simp only: of_int_le_iff)
    then show ?thesis using a(1) by (simp add: power_int_def)
  qed
  have pa_hi: "(of_int p :: rat) < 2 powi a"
  proof -
    have "(of_int p :: rat) < of_int (2 ^ nat a)" using a(3) by (simp only: of_int_less_iff)
    then show ?thesis using a(1) by (simp add: power_int_def)
  qed
  have qb_lo: "(2::rat) powi (b - 1) \<le> of_int q"
  proof -
    have "(of_int (2 ^ nat (b - 1)) :: rat) \<le> of_int q" using b(2) by (simp only: of_int_le_iff)
    then show ?thesis using b(1) by (simp add: power_int_def)
  qed
  have qb_hi: "(of_int q :: rat) < 2 powi b"
  proof -
    have "(of_int q :: rat) < of_int (2 ^ nat b)" using b(3) by (simp only: of_int_less_iff)
    then show ?thesis using b(1) by (simp add: power_int_def)
  qed
  have qpos: "(0::rat) < of_int q" using q by simp
  have ppos: "(0::rat) < of_int p" using p by simp
  \<comment> \<open>upper bound: p / q < 2 powi (a - b + 1)\<close>
  have up: "\<bar>x\<bar> < 2 powi (a - b + 1)"
  proof -
    have "2 powi (a - b + 1) * of_int q \<ge> 2 powi (a - b + 1) * (2::rat) powi (b - 1)"
      using qb_lo by (simp add: mult_left_mono)
    also have "2 powi (a - b + 1) * (2::rat) powi (b - 1) = 2 powi a"
      by (simp add: power_int_add [symmetric])
    finally have "(2::rat) powi a \<le> 2 powi (a - b + 1) * of_int q" .
    with pa_hi have "of_int p < 2 powi (a - b + 1) * (of_int q :: rat)" by simp
    then show ?thesis using qpos by (simp add: ax pos_divide_less_eq)
  qed
  \<comment> \<open>lower bound: 2 powi (a - b - 1) < p / q\<close>
  have lo: "2 powi (a - b - 1) < \<bar>x\<bar>"
  proof -
    have "2 powi (a - b - 1) * of_int q < 2 powi (a - b - 1) * (2::rat) powi b"
      using qb_hi by (simp add: mult_strict_left_mono)
    also have "2 powi (a - b - 1) * (2::rat) powi b = 2 powi (a - 1)"
      by (simp add: power_int_add [symmetric])
    finally have "2 powi (a - b - 1) * of_int q < (2::rat) powi (a - 1)" .
    with pa_lo have "2 powi (a - b - 1) * (of_int q :: rat) < of_int p" by simp
    then show ?thesis using qpos by (simp add: ax pos_less_divide_eq)
  qed
  have il: "ilog2 x = (if 2 powi (a - b) \<le> \<bar>x\<bar> then a - b else a - b - 1)"
    by (simp add: ilog2_def pq a_def b_def Let_def)
  show ?thesis
  proof (cases "2 powi (a - b) \<le> \<bar>x\<bar>")
    case True
    then show ?thesis using up il by simp
  next
    case False
    then show ?thesis using lo il by simp
  qed
qed

lemma ilog2_unique:
  assumes "2 powi e \<le> \<bar>x\<bar>" "\<bar>x\<bar> < 2 powi (e + 1)"
  shows "ilog2 x = e"
proof -
  have "0 < \<bar>x\<bar>" using assms(1) two_powi_pos [of e] by linarith
  then have nz: "x \<noteq> 0" by auto
  from ilog2_bounds [OF nz] have b: "2 powi ilog2 x \<le> \<bar>x\<bar>" "\<bar>x\<bar> < 2 powi (ilog2 x + 1)" by simp_all
  have "(2::rat) powi e < 2 powi (ilog2 x + 1)" using assms(1) b(2) by linarith
  then have 1: "e < ilog2 x + 1" by (simp add: two_powi_less_iff)
  have "(2::rat) powi ilog2 x < 2 powi (e + 1)" using assms(2) b(1) by linarith
  then have 2: "ilog2 x < e + 1" by (simp add: two_powi_less_iff)
  from 1 2 show ?thesis by simp
qed

lemma ilog2_abs_mono:
  assumes "x \<noteq> 0" "\<bar>x\<bar> \<le> \<bar>y\<bar>"
  shows "ilog2 x \<le> ilog2 y"
proof -
  have ny: "y \<noteq> 0" using assms by auto
  have "(2::rat) powi ilog2 x \<le> \<bar>x\<bar>" using ilog2_bounds [OF assms(1)] by simp
  also have "\<dots> \<le> \<bar>y\<bar>" by fact
  also have "\<dots> < 2 powi (ilog2 y + 1)" using ilog2_bounds [OF ny] by simp
  finally have "ilog2 x < ilog2 y + 1" by (simp add: two_powi_less_iff)
  then show ?thesis by simp
qed

lemma ilog2_minus [simp]: "ilog2 (- x) = ilog2 x"
  by (simp add: ilog2_def)

lemma rhe_of_int [simp]: "round_half_even (of_int k) = k"
  by (simp add: round_half_even_def)

lemma rhe_bounds: "of_int (round_half_even x) - 1 / 2 \<le> x \<and> x \<le> of_int (round_half_even x) + 1 / 2"
proof -
  define f where "f = \<lfloor>x\<rfloor>"
  have f: "of_int f \<le> x" "x < of_int f + 1" unfolding f_def by linarith+
  have "round_half_even x =
      (if x - of_int f < 1 / 2 then f else if 1 / 2 < x - of_int f then f + 1
       else if even f then f else f + 1)"
    by (simp add: round_half_even_def Let_def f_def)
  then show ?thesis using f by auto
qed

lemma rhe_range: "\<lfloor>x\<rfloor> \<le> round_half_even x \<and> round_half_even x \<le> \<lfloor>x\<rfloor> + 1"
  by (simp add: round_half_even_def Let_def)

lemma rhe_mono:
  assumes "x \<le> y"
  shows "round_half_even x \<le> round_half_even y"
proof (cases "\<lfloor>x\<rfloor> = \<lfloor>y\<rfloor>")
  case True
  with assms show ?thesis
    by (auto simp: round_half_even_def Let_def)
next
  case False
  with assms have "\<lfloor>x\<rfloor> + 1 \<le> \<lfloor>y\<rfloor>" using floor_mono [OF assms] by linarith
  with rhe_range [of x] rhe_range [of y] show ?thesis by linarith
qed

lemma rhe_le_int: "x \<le> of_int k \<Longrightarrow> round_half_even x \<le> k"
  using rhe_mono [of x "of_int k"] by simp

lemma rhe_ge_int: "of_int k \<le> x \<Longrightarrow> k \<le> round_half_even x"
  using rhe_mono [of "of_int k" x] by simp

lemma quantum_pos [simp]: "0 < quantum x"
  by (simp add: quantum_def)

lemma quantum_nonneg [simp]: "0 \<le> quantum x"
  by (simp add: quantum_def)

lemma quantum_minus [simp]: "quantum (- x) = quantum x"
  by (simp add: quantum_def)

lemma quantum_abs_mono: "x \<noteq> 0 \<Longrightarrow> \<bar>x\<bar> \<le> \<bar>y\<bar> \<Longrightarrow> quantum x \<le> quantum y"
  unfolding quantum_def using ilog2_abs_mono [of x y] by (intro two_powi_mono) auto

lemma round_nearest_zero [simp]: "round_nearest 0 = 0"
  by (simp add: round_nearest_def)

lemma round_nearest_nonneg: "0 \<le> x \<Longrightarrow> 0 \<le> round_nearest x"
proof -
  assume "0 \<le> x"
  then have "of_int 0 \<le> x / quantum x" by simp
  then have "0 \<le> round_half_even (x / quantum x)" by (rule rhe_ge_int)
  then show ?thesis by (simp add: round_nearest_def)
qed

lemma round_nearest_nonpos: "x \<le> 0 \<Longrightarrow> round_nearest x \<le> 0"
proof -
  assume "x \<le> 0"
  then have "x / quantum x \<le> of_int 0" by (simp add: divide_le_0_iff)
  then have "round_half_even (x / quantum x) \<le> 0" by (rule rhe_le_int)
  then show ?thesis by (simp add: round_nearest_def mult_le_0_iff)
qed

lemma quantum_fexp: "quantum x = 2 powi (fexp x - 52)"
  by (simp add: quantum_def fexp_def)

lemma two_powi_53_quantum: "2 powi (fexp x + 1) = of_int (2 ^ 53) * quantum x"
proof -
  show ?thesis
    using power_int_add [of "2::rat" 53 "fexp x - 52"] by (simp add: quantum_fexp add.commute)
qed

lemma two_powi_52_quantum: "2 powi (fexp x) = of_int (2 ^ 52) * quantum x"
proof -
  show ?thesis
    using power_int_add [of "2::rat" 52 "fexp x - 52"] by (simp add: quantum_fexp)
qed

lemma abs_less_fexp: "x \<noteq> 0 \<Longrightarrow> \<bar>x\<bar> < 2 powi (fexp x + 1)"
proof -
  assume "x \<noteq> 0"
  then have "\<bar>x\<bar> < 2 powi (ilog2 x + 1)" using ilog2_bounds by simp
  also have "\<dots> \<le> 2 powi (fexp x + 1)" by (rule two_powi_mono) (simp add: fexp_def)
  finally show ?thesis .
qed

lemma fexp_le_abs: "x \<noteq> 0 \<Longrightarrow> - 1022 \<le> ilog2 x \<Longrightarrow> 2 powi (fexp x) \<le> \<bar>x\<bar>"
  using ilog2_bounds [of x] by (simp add: fexp_def max_def)

lemma round_nearest_upper:
  assumes "0 < x"
  shows "round_nearest x \<le> 2 powi (fexp x + 1)"
proof -
  have "x < of_int (2 ^ 53) * quantum x"
    using abs_less_fexp [of x] assms by (simp add: two_powi_53_quantum)
  then have "x / quantum x \<le> of_int (2 ^ 53)" by (simp add: pos_divide_le_eq)
  then have "round_half_even (x / quantum x) \<le> 2 ^ 53" by (rule rhe_le_int)
  then have "(of_int (round_half_even (x / quantum x)) :: rat) \<le> of_int (2 ^ 53)"
    by (simp only: of_int_le_iff)
  then have "of_int (round_half_even (x / quantum x)) * quantum x \<le> of_int (2 ^ 53) * quantum x"
    by (rule mult_right_mono) simp
  then show ?thesis using assms by (simp add: round_nearest_def two_powi_53_quantum)
qed

lemma round_nearest_lower:
  assumes "0 < x" "- 1022 \<le> ilog2 x"
  shows "2 powi (fexp x) \<le> round_nearest x"
proof -
  have "of_int (2 ^ 52) * quantum x \<le> x"
    using fexp_le_abs [of x] assms by (simp add: two_powi_52_quantum)
  then have "of_int (2 ^ 52) \<le> x / quantum x" by (simp add: pos_le_divide_eq)
  then have "2 ^ 52 \<le> round_half_even (x / quantum x)" by (rule rhe_ge_int)
  then have "(of_int (2 ^ 52) :: rat) \<le> of_int (round_half_even (x / quantum x))"
    by (simp only: of_int_le_iff)
  then have "of_int (2 ^ 52) * quantum x \<le> of_int (round_half_even (x / quantum x)) * quantum x"
    by (rule mult_right_mono) simp
  then show ?thesis using assms by (simp add: round_nearest_def two_powi_52_quantum)
qed

lemma round_nearest_upper_neg:
  assumes "x < 0"
  shows "- (2 powi (fexp x + 1)) \<le> round_nearest x"
proof -
  have "- (of_int (2 ^ 53) * quantum x) < x"
    using abs_less_fexp [of x] assms by (simp add: two_powi_53_quantum)
  then have "of_int (- (2 ^ 53)) \<le> x / quantum x" by (simp add: pos_le_divide_eq)
  then have "- (2 ^ 53) \<le> round_half_even (x / quantum x)" by (rule rhe_ge_int)
  then have "(of_int (- (2 ^ 53)) :: rat) \<le> of_int (round_half_even (x / quantum x))"
    by (simp only: of_int_le_iff)
  then have "of_int (- (2 ^ 53)) * quantum x \<le> of_int (round_half_even (x / quantum x)) * quantum x"
    by (rule mult_right_mono) simp
  then show ?thesis using assms by (simp add: round_nearest_def two_powi_53_quantum)
qed

lemma round_nearest_lower_neg:
  assumes "x < 0" "- 1022 \<le> ilog2 x"
  shows "round_nearest x \<le> - (2 powi (fexp x))"
proof -
  have "x \<le> - (of_int (2 ^ 52) * quantum x)"
    using fexp_le_abs [of x] assms by (simp add: two_powi_52_quantum)
  then have "x / quantum x \<le> of_int (- (2 ^ 52))" by (simp add: pos_divide_le_eq)
  then have "round_half_even (x / quantum x) \<le> - (2 ^ 52)" by (rule rhe_le_int)
  then have "(of_int (round_half_even (x / quantum x)) :: rat) \<le> of_int (- (2 ^ 52))"
    by (simp only: of_int_le_iff)
  then have "of_int (round_half_even (x / quantum x)) * quantum x \<le> of_int (- (2 ^ 52)) * quantum x"
    by (rule mult_right_mono) simp
  then show ?thesis using assms by (simp add: round_nearest_def two_powi_52_quantum)
qed

lemma fexp_abs_mono: "x \<noteq> 0 \<Longrightarrow> \<bar>x\<bar> \<le> \<bar>y\<bar> \<Longrightarrow> fexp x \<le> fexp y"
  using ilog2_abs_mono [of x y] by (auto simp: fexp_def)

lemma round_nearest_same_quantum:
  assumes "x \<le> y" "x \<noteq> 0" "y \<noteq> 0" "fexp x = fexp y"
  shows "round_nearest x \<le> round_nearest y"
proof -
  have q: "quantum x = quantum y" using assms(4) by (simp add: quantum_fexp)
  have "x / quantum y \<le> y / quantum y" using assms(1) by (simp add: divide_right_mono)
  then have "round_half_even (x / quantum y) \<le> round_half_even (y / quantum y)" by (rule rhe_mono)
  then have "(of_int (round_half_even (x / quantum y)) :: rat) \<le> of_int (round_half_even (y / quantum y))"
    by (simp only: of_int_le_iff)
  then have "of_int (round_half_even (x / quantum y)) * quantum y
      \<le> of_int (round_half_even (y / quantum y)) * quantum y"
    by (rule mult_right_mono) simp
  then show ?thesis using assms(2,3) by (simp add: round_nearest_def q)
qed

lemma round_nearest_mono:
  assumes "x \<le> y"
  shows "round_nearest x \<le> round_nearest y"
proof -
  consider "x \<le> 0" "0 \<le> y" | "0 < x" | "y < 0" using assms by linarith
  then show ?thesis
  proof cases
    case 1
    then show ?thesis using round_nearest_nonpos [of x] round_nearest_nonneg [of y] by linarith
  next
    case 2
    then have y: "0 < y" using assms by linarith
    have le: "fexp x \<le> fexp y" using fexp_abs_mono [of x y] 2 y assms by simp
    show ?thesis
    proof (cases "fexp x = fexp y")
      case True
      then show ?thesis using round_nearest_same_quantum [of x y] assms 2 y by simp
    next
      case False
      with le have lt: "fexp x + 1 \<le> fexp y" by simp
      then have "- 1022 < fexp y" by (simp add: fexp_def)
      then have ily: "- 1022 \<le> ilog2 y" by (simp add: fexp_def max_def split: if_splits)
      have "round_nearest x \<le> 2 powi (fexp x + 1)" using round_nearest_upper [OF 2] .
      also have "\<dots> \<le> 2 powi (fexp y)" using lt by (rule two_powi_mono)
      also have "\<dots> \<le> round_nearest y" using round_nearest_lower [OF y ily] .
      finally show ?thesis .
    qed
  next
    case 3
    then have x: "x < 0" using assms by linarith
    have le: "fexp y \<le> fexp x" using fexp_abs_mono [of y x] 3 x assms by simp
    show ?thesis
    proof (cases "fexp x = fexp y")
      case True
      then show ?thesis using round_nearest_same_quantum [of x y] assms 3 x by simp
    next
      case False
      with le have lt: "fexp y + 1 \<le> fexp x" by simp
      then have "- 1022 < fexp x" by (simp add: fexp_def)
      then have ilx: "- 1022 \<le> ilog2 x" by (simp add: fexp_def max_def split: if_splits)
      have "round_nearest x \<le> - (2 powi (fexp x))" using round_nearest_lower_neg [OF x ilx] .
      also have "\<dots> \<le> - (2 powi (fexp y + 1))" using two_powi_mono [OF lt] by simp
      also have "\<dots> \<le> round_nearest y" using round_nearest_upper_neg [OF 3] .
      finally show ?thesis .
    qed
  qed
qed




lemma limit_quantum: "binary64_limit = of_int (2 ^ 53) * 2 powi 971"
  unfolding binary64_limit_def using power_int_add [of "2::rat" 53 971] by simp

lemma fexp_1023_quantum: "fexp x = 1023 \<Longrightarrow> quantum x = 2 powi 971"
  by (simp add: quantum_fexp)

lemma limit_eq_powi: "binary64_limit = 2 powi (1023 + 1)"
  by (simp add: binary64_limit_def)

text \<open>The largest finite binary64 number.\<close>

lemma round_nearest_below_limit:
  assumes "x < binary64_limit - 2 powi 970"
  shows "round_nearest x < binary64_limit"
proof (cases "x \<le> 0")
  case True
  have "0 < binary64_limit" by (simp add: binary64_limit_def)
  with round_nearest_nonpos [OF True] show ?thesis by linarith
next
  case False
  then have x: "0 < x" by simp
  have "x < binary64_limit" using assms two_powi_pos [of 970] by linarith
  then have xl: "\<bar>x\<bar> < 2 powi (1023 + 1)" using x by (simp only: limit_eq_powi abs_of_pos)
  have "2 powi ilog2 x \<le> \<bar>x\<bar>" using ilog2_bounds [of x] x by simp
  with xl have "(2::rat) powi ilog2 x < 2 powi (1023 + 1)" by linarith
  then have "ilog2 x < 1023 + 1" by (simp only: two_powi_less_iff)
  then have fe: "fexp x \<le> 1023" by (simp add: fexp_def)
  show ?thesis
  proof (cases "fexp x = 1023")
    case True
    have q: "quantum x = 2 powi 971" using True by (rule fexp_1023_quantum)
    have half: "(2::rat) powi 970 = 2 powi 971 / 2"
      using power_int_add [of "2::rat" 970 1] by simp
    have "x < (of_int (2 ^ 53) - 1 / 2) * 2 powi 971"
      using assms by (simp add: limit_quantum half left_diff_distrib)
    then have "x / quantum x < of_int (2 ^ 53) - 1 / 2"
      by (simp add: q pos_divide_less_eq)
    with rhe_bounds [of "x / quantum x"]
    have "(of_int (round_half_even (x / quantum x)) :: rat) < of_int (2 ^ 53)" by linarith
    then have "round_half_even (x / quantum x) < 2 ^ 53" by (simp only: of_int_less_iff)
    then have "round_half_even (x / quantum x) + 1 \<le> 2 ^ 53" by simp
    then have "(of_int (round_half_even (x / quantum x) + 1) :: rat) \<le> of_int (2 ^ 53)"
      by (simp only: of_int_le_iff)
    then have "of_int (round_half_even (x / quantum x) + 1) * quantum x \<le> of_int (2 ^ 53) * quantum x"
      by (rule mult_right_mono) simp
    then have "round_nearest x + quantum x \<le> binary64_limit"
      using x by (simp add: round_nearest_def limit_quantum q distrib_right)
    with quantum_pos [of x] show ?thesis by linarith
  next
    case False
    with fe have "fexp x + 1 \<le> 1023" by simp
    then have "(2::rat) powi (fexp x + 1) \<le> 2 powi 1023" by (rule two_powi_mono)
    also have "\<dots> < 2 powi (1023 + 1)" by (rule two_powi_strict_mono) simp
    finally have "(2::rat) powi (fexp x + 1) < binary64_limit" by (simp only: limit_eq_powi)
    with round_nearest_upper [OF x] show ?thesis by linarith
  qed
qed

lemma round_nearest_threshold: "round_nearest (binary64_limit - 2 powi 970) = binary64_limit"
proof -
  define M where "M = binary64_limit - 2 powi 970"
  have half: "(2::rat) powi 970 = 2 powi 971 / 2"
    using power_int_add [of "2::rat" 970 1] by simp
  have M: "M = (of_int (2 ^ 53) - 1 / 2) * 2 powi 971"
    by (simp add: M_def limit_quantum half left_diff_distrib)
  have Mpos: "0 < M" unfolding M by (simp add: zero_less_mult_iff)
  have lo: "2 powi 1023 \<le> \<bar>M\<bar>"
  proof -
    have "(2::rat) powi 1023 = of_int (2 ^ 52) * 2 powi 971"
      using power_int_add [of "2::rat" 52 971] by simp
    also have "\<dots> \<le> (of_int (2 ^ 53) - 1 / 2) * 2 powi 971"
      by (rule mult_right_mono) simp_all
    finally show ?thesis using Mpos by (simp add: M)
  qed
  have "M < binary64_limit" unfolding M_def using two_powi_pos [of 970] by linarith
  then have hi: "\<bar>M\<bar> < 2 powi (1023 + 1)"
    using Mpos by (simp only: limit_eq_powi [symmetric] abs_of_pos)
  have "ilog2 M = 1023" using lo hi by (rule ilog2_unique)
  then have "fexp M = 1023" by (simp add: fexp_def)
  then have q: "quantum M = 2 powi 971" by (rule fexp_1023_quantum)
  have "M / quantum M = M / 2 powi 971" by (simp only: q)
  also have "\<dots> = of_int (2 ^ 53) - 1 / 2"
    by (subst M) (rule nonzero_mult_div_cancel_right, simp)
  finally have dq: "M / quantum M = of_int (2 ^ 53) - 1 / 2" .
  have tie: "round_half_even (of_int (2 ^ 53) - 1 / 2) = 2 ^ 53"
    by code_simp
  have r: "round_half_even (M / quantum M) = 2 ^ 53" by (simp only: dq tie)
  have "round_nearest M = of_int (round_half_even (M / quantum M)) * quantum M"
    using Mpos by (simp add: round_nearest_def)
  also have "\<dots> = of_int (2 ^ 53) * 2 powi 971" by (simp only: r) (simp only: q)
  finally have "round_nearest M = binary64_limit" by (simp only: limit_quantum [symmetric])
  then show ?thesis by (simp only: M_def)
qed

lemma round_nearest_above_limit:
  assumes "binary64_limit - 2 powi 970 \<le> x"
  shows "binary64_limit \<le> round_nearest x"
  using round_nearest_mono [OF assms] by (simp only: round_nearest_threshold)

lemma rhe_tie_even:
  assumes "\<bar>of_int (round_half_even x) - x\<bar> = 1 / 2"
  shows "even (round_half_even x)"
proof -
  define f where "f = \<lfloor>x\<rfloor>"
  have f: "of_int f \<le> x" "x < of_int f + 1" unfolding f_def by linarith+
  have r: "round_half_even x =
      (if x - of_int f < 1 / 2 then f else if 1 / 2 < x - of_int f then f + 1
       else if even f then f else f + 1)"
    by (simp add: round_half_even_def Let_def f_def)
  show ?thesis
  proof (cases "x - of_int f < 1 / 2")
    case True
    then have "round_half_even x = f" using r by simp
    with assms f True show ?thesis by simp
  next
    case False
    show ?thesis
    proof (cases "1 / 2 < x - of_int f")
      case True
      then have "round_half_even x = f + 1" using r False by simp
      with assms f True show ?thesis by simp
    next
      case nt: False
      with False r show ?thesis by auto
    qed
  qed
qed

lemma rhe_minus: "round_half_even (- x) = - round_half_even x"
proof -
  define k where "k = round_half_even x"
  define k' where "k' = round_half_even (- x)"
  have b: "of_int k - 1 / 2 \<le> x" "x \<le> of_int k + 1 / 2"
    using rhe_bounds [of x] by (simp_all add: k_def)
  have b': "of_int k' - 1 / 2 \<le> - x" "- x \<le> of_int k' + 1 / 2"
    using rhe_bounds [of "- x"] by (simp_all add: k'_def)
  have "(of_int (k + k') :: rat) \<le> 1" "(- 1 :: rat) \<le> of_int (k + k')"
    using b b' by simp_all
  then have "k + k' \<le> 1" "- 1 \<le> k + k'"
    by (simp_all only: of_int_le_iff [symmetric, where ?'a = rat] of_int_1 of_int_minus)
  then consider "k + k' = 1" | "k + k' = - 1" | "k + k' = 0" by linarith
  then show ?thesis
  proof cases
    case 1
    then have s: "(of_int k :: rat) + of_int k' = 1"
      by (simp only: of_int_add [symmetric] of_int_1)
    have "of_int k - x = 1 / 2" using b b' s by linarith
    then have "\<bar>of_int (round_half_even x) - x\<bar> = 1 / 2" by (simp add: k_def)
    then have e: "even k" unfolding k_def by (rule rhe_tie_even)
    have "of_int k' - (- x) = 1 / 2" using b b' s by linarith
    then have "\<bar>of_int (round_half_even (- x)) - (- x)\<bar> = 1 / 2" by (simp add: k'_def)
    then have e': "even k'" unfolding k'_def by (rule rhe_tie_even)
    from e e' have "even (k + k')" by simp
    with 1 show ?thesis by simp
  next
    case 2
    then have s: "(of_int k :: rat) + of_int k' = - 1"
      by (simp only: of_int_add [symmetric] of_int_1 of_int_minus)
    have "x - of_int k = 1 / 2" using b b' s by linarith
    then have "\<bar>of_int (round_half_even x) - x\<bar> = 1 / 2" by (simp add: k_def)
    then have e: "even k" unfolding k_def by (rule rhe_tie_even)
    have "(- x) - of_int k' = 1 / 2" using b b' s by linarith
    then have "\<bar>of_int (round_half_even (- x)) - (- x)\<bar> = 1 / 2" by (simp add: k'_def)
    then have e': "even k'" unfolding k'_def by (rule rhe_tie_even)
    from e e' have "even (k + k')" by simp
    with 2 show ?thesis by simp
  next
    case 3
    then show ?thesis by (simp add: k_def k'_def)
  qed
qed

lemma round_nearest_minus: "round_nearest (- x) = - round_nearest x"
  by (simp add: round_nearest_def rhe_minus)

lemma limit_pos [simp]: "0 < binary64_limit"
  by (simp add: binary64_limit_def)

lemma round_nearest_above_neg_limit:
  assumes "- (binary64_limit - 2 powi 970) < x"
  shows "- binary64_limit < round_nearest x"
proof -
  have "- x < binary64_limit - 2 powi 970" using assms by linarith
  then have "round_nearest (- x) < binary64_limit" by (rule round_nearest_below_limit)
  then show ?thesis by (simp add: round_nearest_minus)
qed

lemma round_nearest_below_neg_limit:
  assumes "x \<le> - (binary64_limit - 2 powi 970)"
  shows "round_nearest x \<le> - binary64_limit"
proof -
  have "binary64_limit - 2 powi 970 \<le> - x" using assms by linarith
  then have "binary64_limit \<le> round_nearest (- x)" by (rule round_nearest_above_limit)
  then show ?thesis by (simp add: round_nearest_minus)
qed

lemma round_to_binary64_finite:
  assumes "\<bar>x\<bar> < binary64_limit - 2 powi 970"
  shows "round_to_binary64 x = Finite (round_nearest x)"
proof -
  have "x < binary64_limit - 2 powi 970" "- (binary64_limit - 2 powi 970) < x"
    using assms by linarith+
  then have "round_nearest x < binary64_limit" "- binary64_limit < round_nearest x"
    by (simp_all only: round_nearest_below_limit round_nearest_above_neg_limit)
  then show ?thesis by (simp add: round_to_binary64_def Let_def)
qed

lemma round_to_binary64_PosInf:
  assumes "binary64_limit - 2 powi 970 \<le> x"
  shows "round_to_binary64 x = PosInf"
  using round_nearest_above_limit [OF assms] by (simp add: round_to_binary64_def Let_def)

lemma round_to_binary64_NegInf:
  assumes "x \<le> - (binary64_limit - 2 powi 970)"
  shows "round_to_binary64 x = NegInf"
proof -
  have "round_nearest x \<le> - binary64_limit" using assms by (rule round_nearest_below_neg_limit)
  moreover have "- binary64_limit < binary64_limit" using limit_pos by linarith
  ultimately have "\<not> binary64_limit \<le> round_nearest x" "round_nearest x \<le> - binary64_limit"
    by linarith+
  then show ?thesis by (simp add: round_to_binary64_def Let_def)
qed

lemma round_to_binary64_not_NaN [simp]: "round_to_binary64 x \<noteq> NaN"
  by (simp add: round_to_binary64_def Let_def)

lemma round_to_binary64_mono:
  assumes "x \<le> y"
  shows "float_le (round_to_binary64 x) (round_to_binary64 y)"
proof -
  have m: "round_nearest x \<le> round_nearest y" using assms by (rule round_nearest_mono)
  have "- binary64_limit < binary64_limit" using limit_pos by linarith
  with m show ?thesis by (auto simp: round_to_binary64_def Let_def)
qed

lemma float_le_trans_int:
  "float_le a (Finite b) \<Longrightarrow> b \<le> of_int k \<Longrightarrow> float_le_int a k"
  by (cases a) auto

lemma float_le_int_lower:
  "float_le (Finite c) a \<Longrightarrow> of_int k < c \<Longrightarrow> \<not> float_le_int a k"
  by (cases a) auto

lemma int_bound_rat: "(of_int float_int_limit :: rat) = overflow_threshold"
  by (simp only: float_int_limit_def overflow_threshold_def binary64_limit_def
      of_int_diff of_int_power of_int_numeral power_int_numeral)

lemma overflow_threshold_pos: "0 < overflow_threshold"
proof -
  have "(2::rat) powi 970 < 2 powi 1024" by (rule two_powi_strict_mono) simp
  then show ?thesis by (simp only: overflow_threshold_def binary64_limit_def diff_gt_0_iff_gt)
qed

lemma float_int_limit_pos: "0 < float_int_limit"
proof -
  have "(of_int 0 :: rat) < of_int float_int_limit"
    using overflow_threshold_pos by (simp only: int_bound_rat of_int_0)
  then show ?thesis by (simp only: of_int_less_iff)
qed

lemma overflow_threshold_ge: "2 powi 1023 \<le> overflow_threshold"
proof -
  have "(2::rat) powi (1023 + 1) = 2 * 2 powi 1023" by (rule two_powi_Suc)
  then have "(2::rat) powi 1024 = 2 powi 1023 + 2 powi 1023" by simp
  moreover have "(2::rat) powi 970 \<le> 2 powi 1023" by (rule two_powi_mono) simp
  ultimately have "2 powi 1023 \<le> (2::rat) powi 1024 - 2 powi 970" by linarith
  then show ?thesis by (simp only: overflow_threshold_def binary64_limit_def)
qed

lemma round_to_binary64_finite':
  "\<bar>x\<bar> < overflow_threshold \<Longrightarrow> round_to_binary64 x = Finite (round_nearest x)"
  unfolding overflow_threshold_def by (rule round_to_binary64_finite)

lemma round_to_binary64_PosInf':
  "overflow_threshold \<le> x \<Longrightarrow> round_to_binary64 x = PosInf"
  unfolding overflow_threshold_def by (rule round_to_binary64_PosInf)

lemma round_to_binary64_NegInf':
  "x \<le> - overflow_threshold \<Longrightarrow> round_to_binary64 x = NegInf"
  unfolding overflow_threshold_def by (rule round_to_binary64_NegInf)

lemma in_range_rat:
  assumes "\<bar>n\<bar> < float_int_limit"
  shows "\<bar>of_int n :: rat\<bar> < overflow_threshold"
proof -
  have "(of_int \<bar>n\<bar> :: rat) < of_int float_int_limit"
    using assms by (simp only: of_int_less_iff)
  then show ?thesis by (simp only: int_bound_rat of_int_abs)
qed

lemma out_of_range_rat:
  assumes "float_int_limit \<le> \<bar>n\<bar>"
  shows "overflow_threshold \<le> \<bar>of_int n :: rat\<bar>"
proof -
  have "(of_int float_int_limit :: rat) \<le> of_int \<bar>n\<bar>"
    using assms by (simp only: of_int_le_iff)
  then show ?thesis by (simp only: int_bound_rat of_int_abs)
qed

lemma int_to_float_in_range:
  assumes "\<bar>n\<bar> < float_int_limit"
  shows "int_to_float n = Inr (Finite (round_nearest (of_int n)))"
  using round_to_binary64_finite' [OF in_range_rat [OF assms]] by (simp add: int_to_float_def)

lemma int_to_float_overflow:
  assumes "float_int_limit \<le> \<bar>n\<bar>"
  shows "int_to_float n = Inl OverflowError"
proof (cases "0 \<le> n")
  case True
  then have "overflow_threshold \<le> (of_int n :: rat)"
    using out_of_range_rat [OF assms] by simp
  then have "round_to_binary64 (of_int n) = PosInf" by (rule round_to_binary64_PosInf')
  then show ?thesis by (simp add: int_to_float_def)
next
  case False
  then have "(of_int n :: rat) \<le> - overflow_threshold"
    using out_of_range_rat [OF assms] by simp
  then have "round_to_binary64 (of_int n) = NegInf" by (rule round_to_binary64_NegInf')
  then show ?thesis by (simp add: int_to_float_def)
qed

lemma rhe_eqI:
  assumes "\<bar>x - of_int k\<bar> < 1 / 2"
  shows "round_half_even x = k"
proof -
  have "\<bar>(of_int (round_half_even x) :: rat) - of_int k\<bar> < 1"
    using rhe_bounds [of x] assms by linarith
  then have "\<bar>(of_int (round_half_even x - k) :: rat)\<bar> < of_int 1" by simp
  then have "\<bar>round_half_even x - k\<bar> < 1"
    by (simp only: of_int_abs [symmetric] of_int_less_iff)
  then show ?thesis by simp
qed

lemma rhe_tie_below:
  assumes "x = of_int k - 1 / 2" "even k"
  shows "round_half_even x = k"
proof -
  have b: "of_int (round_half_even x) - 1 / 2 \<le> x" "x \<le> of_int (round_half_even x) + 1 / 2"
    using rhe_bounds [of x] by simp_all
  have "(of_int (k - 1) :: rat) \<le> of_int (round_half_even x)"
    "(of_int (round_half_even x) :: rat) \<le> of_int k"
    using b assms(1) by simp_all
  then have "k - 1 \<le> round_half_even x" "round_half_even x \<le> k"
    by (simp_all only: of_int_le_iff)
  then consider "round_half_even x = k" | "round_half_even x = k - 1" by linarith
  then show ?thesis
  proof cases
    case 1
    then show ?thesis .
  next
    case 2
    then have "\<bar>of_int (round_half_even x) - x\<bar> = 1 / 2" using assms(1) by simp
    then have "even (round_half_even x)" by (rule rhe_tie_even)
    with 2 assms(2) show ?thesis by simp
  qed
qed

lemma rhe_tie_above:
  assumes "x = of_int k + 1 / 2" "even k"
  shows "round_half_even x = k"
proof -
  have "round_half_even (- x) = - k"
    by (rule rhe_tie_below) (simp_all add: assms)
  then show ?thesis by (simp add: rhe_minus)
qed

lemma rhe_numeral [simp]: "round_half_even (numeral w) = numeral w"
  using rhe_of_int [of "numeral w"] by simp

lemma quantum_eval:
  assumes "2 powi e \<le> \<bar>x\<bar>" "\<bar>x\<bar> < 2 powi (e + 1)" "- 1022 \<le> e"
  shows "quantum x = 2 powi (e - 52)"
proof -
  have "ilog2 x = e" using assms(1,2) by (rule ilog2_unique)
  then show ?thesis using assms(3) by (simp add: quantum_def max_def)
qed

lemma round_nearest_eval:
  assumes "2 powi e \<le> \<bar>x\<bar>" "\<bar>x\<bar> < 2 powi (e + 1)" "- 1022 \<le> e"
    and "\<bar>x / 2 powi (e - 52) - of_int k\<bar> < 1 / 2"
  shows "round_nearest x = of_int k * 2 powi (e - 52)"
proof -
  have q: "quantum x = 2 powi (e - 52)" using assms(1-3) by (rule quantum_eval)
  have "0 < \<bar>x\<bar>" using assms(1) two_powi_pos [of e] by linarith
  then have nz: "x \<noteq> 0" by auto
  have "round_half_even (x / 2 powi (e - 52)) = k" using assms(4) by (rule rhe_eqI)
  then show ?thesis using nz by (simp add: round_nearest_def q)
qed

lemma round_nearest_eval_tie:
  assumes "2 powi e \<le> \<bar>x\<bar>" "\<bar>x\<bar> < 2 powi (e + 1)" "- 1022 \<le> e"
    and "x / 2 powi (e - 52) = of_int k - 1 / 2 \<or> x / 2 powi (e - 52) = of_int k + 1 / 2"
    and "even k"
  shows "round_nearest x = of_int k * 2 powi (e - 52)"
proof -
  have q: "quantum x = 2 powi (e - 52)" using assms(1-3) by (rule quantum_eval)
  have "0 < \<bar>x\<bar>" using assms(1) two_powi_pos [of e] by linarith
  then have nz: "x \<noteq> 0" by auto
  have "round_half_even (x / 2 powi (e - 52)) = k"
    using assms(4,5) rhe_tie_below [of _ k] rhe_tie_above [of _ k] by blast
  then show ?thesis using nz by (simp add: round_nearest_def q)
qed

lemma small_finite:
  assumes "\<bar>x\<bar> \<le> 2 powi 1023"
  shows "round_to_binary64 x = Finite (round_nearest x)"
proof -
  have "\<bar>x\<bar> < overflow_threshold \<or> \<bar>x\<bar> = overflow_threshold"
    using assms overflow_threshold_ge by linarith
  moreover have "2 powi 1023 < overflow_threshold"
  proof -
    have "(2::rat) powi (1023 + 1) = 2 * 2 powi 1023" by (rule two_powi_Suc)
    then have "(2::rat) powi 1024 = 2 powi 1023 + 2 powi 1023" by simp
    moreover have "(2::rat) powi 970 < 2 powi 1023" by (rule two_powi_strict_mono) simp
    ultimately have "2 powi 1023 < (2::rat) powi 1024 - 2 powi 970" by linarith
    then show ?thesis by (simp only: overflow_threshold_def binary64_limit_def)
  qed
  ultimately have "\<bar>x\<bar> < overflow_threshold" using assms by linarith
  then show ?thesis by (rule round_to_binary64_finite')
qed

lemma le_512_small: "\<bar>x\<bar> \<le> 4096 \<Longrightarrow> \<bar>x\<bar> \<le> (2::rat) powi 1023"
proof -
  assume "\<bar>x\<bar> \<le> 4096"
  also have "(4096::rat) = 2 powi 12" by simp
  also have "\<dots> \<le> 2 powi 1023" by (rule two_powi_mono) simp
  finally show ?thesis .
qed

lemma c435_6_value: "c435_6 = Finite (3831578120473805 / 8796093022208)"
proof -
  have "round_nearest (4356 / 10) = of_int 7663156240947610 * 2 powi (8 - 52)"
    by (rule round_nearest_eval) simp_all
  then have "round_nearest (4356 / 10) = 3831578120473805 / 8796093022208" by simp
  moreover have "round_to_binary64 (4356 / 10) = Finite (round_nearest (4356 / 10))"
    by (rule small_finite, rule le_512_small) simp
  ultimately show ?thesis by (simp only: c435_6_def)
qed

lemma int_mul_float_in_range:
  assumes "\<bar>n\<bar> < float_int_limit"
  shows "int_mul_float n c435_6 =
    Inr (round_to_binary64 (round_nearest (of_int n) * (3831578120473805 / 8796093022208)))"
  by (simp add: int_mul_float_def int_to_float_in_range [OF assms] c435_6_value)

lemma int_mul_float_overflow:
  assumes "float_int_limit \<le> \<bar>n\<bar>"
  shows "int_mul_float n c435_6 = Inl OverflowError"
  by (simp add: int_mul_float_def int_to_float_overflow [OF assms])

lemma int_mul_float_mono:
  assumes "n \<le> m" "\<bar>n\<bar> < float_int_limit" "\<bar>m\<bar> < float_int_limit"
    and "int_mul_float n c435_6 = Inr a" "int_mul_float m c435_6 = Inr b"
  shows "float_le a b"
proof -
  have "(of_int n :: rat) \<le> of_int m" using assms(1) by simp
  then have "round_nearest (of_int n) \<le> round_nearest (of_int m)" by (rule round_nearest_mono)
  then have "round_nearest (of_int n) * (3831578120473805 / 8796093022208)
      \<le> round_nearest (of_int m) * (3831578120473805 / 8796093022208)"
    by (rule mult_right_mono) simp
  then have "float_le
      (round_to_binary64 (round_nearest (of_int n) * (3831578120473805 / 8796093022208)))
      (round_to_binary64 (round_nearest (of_int m) * (3831578120473805 / 8796093022208)))"
    by (rule round_to_binary64_mono)
  then show ?thesis
    using assms(4,5) by (simp add: int_mul_float_in_range [OF assms(2)] int_mul_float_in_range [OF assms(3)])
qed

lemma int_to_float_small:
  assumes "\<bar>n\<bar> \<le> 2 ^ 1023"
  shows "\<bar>n\<bar> < float_int_limit"
proof -
  have "(of_int \<bar>n\<bar> :: rat) \<le> of_int (2 ^ 1023)" using assms by (simp only: of_int_le_iff)
  also have "(of_int (2 ^ 1023) :: rat) = 2 powi 1023"
    by (simp only: of_int_power of_int_numeral power_int_numeral)
  also have "\<dots> < overflow_threshold"
  proof -
    have "(2::rat) powi (1023 + 1) = 2 * 2 powi 1023" by (rule two_powi_Suc)
    then have "(2::rat) powi 1024 = 2 powi 1023 + 2 powi 1023" by simp
    moreover have "(2::rat) powi 970 < 2 powi 1023" by (rule two_powi_strict_mono) simp
    ultimately have "2 powi 1023 < (2::rat) powi 1024 - 2 powi 970" by linarith
    then show ?thesis by (simp only: overflow_threshold_def binary64_limit_def)
  qed
  finally have "(of_int \<bar>n\<bar> :: rat) < of_int float_int_limit" by (simp only: int_bound_rat)
  then show ?thesis by (simp only: of_int_less_iff)
qed

lemma tiny_in_range: "\<bar>n\<bar> \<le> 4096 \<Longrightarrow> \<bar>n\<bar> < float_int_limit"
proof -
  assume "\<bar>n\<bar> \<le> 4096"
  also have "(4096::int) = 2 ^ 12" by simp
  also have "\<dots> \<le> 2 ^ 1023" by (rule power_increasing) simp_all
  finally show ?thesis by (rule int_to_float_small)
qed

lemma sqft_eval:
  assumes "\<bar>n\<bar> \<le> 4096"
    and "round_nearest (of_int n) = a"
    and "round_nearest (a * (3831578120473805 / 8796093022208)) = b"
    and "\<bar>a * (3831578120473805 / 8796093022208)\<bar> \<le> 2 powi 1023"
  shows "int_mul_float n c435_6 = Inr (Finite b)"
  using assms(2,3) small_finite [OF assms(4)]
  by (simp add: int_mul_float_in_range [OF tiny_in_range [OF assms(1)]])

lemma sqft_2: "int_mul_float 2 c435_6 = Inr (Finite (3831578120473805 / 4398046511104))"
proof (rule sqft_eval)
  show "\<bar>2::int\<bar> \<le> 4096" by simp
  have "round_nearest (of_int 2) = of_int (2 ^ 52) * 2 powi (1 - 52)"
    by (rule round_nearest_eval) simp_all
  then show "round_nearest (of_int 2) = 2" by simp
  have "round_nearest (2 * (3831578120473805 / 8796093022208))
      = of_int 7663156240947610 * 2 powi (9 - 52)"
    by (rule round_nearest_eval) simp_all
  then show "round_nearest (2 * (3831578120473805 / 8796093022208))
      = 3831578120473805 / 4398046511104" by simp
  show "\<bar>2 * (3831578120473805 / 8796093022208)\<bar> \<le> (2::rat) powi 1023"
    by (rule le_512_small) simp
qed

lemma sqft_3: "int_mul_float 3 c435_6 = Inr (Finite (1436841795177677 / 1099511627776))"
proof (rule sqft_eval)
  show "\<bar>3::int\<bar> \<le> 4096" by simp
  have "round_nearest (of_int 3) = of_int (3 * 2 ^ 51) * 2 powi (1 - 52)"
    by (rule round_nearest_eval) simp_all
  then show "round_nearest (of_int 3) = 3" by simp
  have "round_nearest (3 * (3831578120473805 / 8796093022208))
      = of_int 5747367180710708 * 2 powi (10 - 52)"
    by (rule round_nearest_eval_tie) simp_all
  then show "round_nearest (3 * (3831578120473805 / 8796093022208))
      = 1436841795177677 / 1099511627776" by simp
  show "\<bar>3 * (3831578120473805 / 8796093022208)\<bar> \<le> (2::rat) powi 1023"
    by (rule le_512_small) simp
qed

lemma sqft_4: "int_mul_float 4 c435_6 = Inr (Finite (3831578120473805 / 2199023255552))"
proof (rule sqft_eval)
  show "\<bar>4::int\<bar> \<le> 4096" by simp
  have "round_nearest (of_int 4) = of_int (2 ^ 52) * 2 powi (2 - 52)"
    by (rule round_nearest_eval) simp_all
  then show "round_nearest (of_int 4) = 4" by simp
  have "round_nearest (4 * (3831578120473805 / 8796093022208))
      = of_int 7663156240947610 * 2 powi (10 - 52)"
    by (rule round_nearest_eval) simp_all
  then show "round_nearest (4 * (3831578120473805 / 8796093022208))
      = 3831578120473805 / 2199023255552" by simp
  show "\<bar>4 * (3831578120473805 / 8796093022208)\<bar> \<le> (2::rat) powi 1023"
    by (rule le_512_small) simp
qed

lemma sqft_5: "int_mul_float 5 c435_6 = Inr (Finite 2178)"
proof (rule sqft_eval)
  show "\<bar>5::int\<bar> \<le> 4096" by simp
  have "round_nearest (of_int 5) = of_int (5 * 2 ^ 50) * 2 powi (2 - 52)"
    by (rule round_nearest_eval) simp_all
  then show "round_nearest (of_int 5) = 5" by simp
  have "round_nearest (5 * (3831578120473805 / 8796093022208))
      = of_int 4789472650592256 * 2 powi (11 - 52)"
    by (rule round_nearest_eval) simp_all
  then show "round_nearest (5 * (3831578120473805 / 8796093022208)) = 2178" by simp
  show "\<bar>5 * (3831578120473805 / 8796093022208)\<bar> \<le> (2::rat) powi 1023"
    by (rule le_512_small) simp
qed

lemma sqft_le_1000_iff:
  assumes "\<bar>n\<bar> < float_int_limit" "int_mul_float n c435_6 = Inr a"
  shows "float_le_int a 1000 \<longleftrightarrow> n \<le> 2"
proof
  assume "n \<le> 2"
  then have "float_le a (Finite (3831578120473805 / 4398046511104))"
    by (rule int_mul_float_mono [OF _ assms(1) tiny_in_range assms(2) sqft_2]) simp
  then show "float_le_int a 1000" by (rule float_le_trans_int) simp
next
  assume le: "float_le_int a 1000"
  show "n \<le> 2"
  proof (rule ccontr)
    assume "\<not> n \<le> 2"
    then have "3 \<le> n" by simp
    then have "float_le (Finite (1436841795177677 / 1099511627776)) a"
      by (rule int_mul_float_mono [OF _ tiny_in_range assms(1) sqft_3 assms(2)]) simp
    then have "\<not> float_le_int a 1000" by (rule float_le_int_lower) simp
    with le show False by simp
  qed
qed

lemma sqft_le_2000_iff:
  assumes "\<bar>n\<bar> < float_int_limit" "int_mul_float n c435_6 = Inr a"
  shows "float_le_int a 2000 \<longleftrightarrow> n \<le> 4"
proof
  assume "n \<le> 4"
  then have "float_le a (Finite (3831578120473805 / 2199023255552))"
    by (rule int_mul_float_mono [OF _ assms(1) tiny_in_range assms(2) sqft_4]) simp
  then show "float_le_int a 2000" by (rule float_le_trans_int) simp
next
  assume le: "float_le_int a 2000"
  show "n \<le> 4"
  proof (rule ccontr)
    assume "\<not> n \<le> 4"
    then have "5 \<le> n" by simp
    then have "float_le (Finite 2178) a"
      by (rule int_mul_float_mono [OF _ tiny_in_range assms(1) sqft_5 assms(2)]) simp
    then have "\<not> float_le_int a 2000" by (rule float_le_int_lower) simp
    with le show False by simp
  qed
qed

lemma int_mul_float_defined:
  assumes "\<bar>n\<bar> < float_int_limit"
  shows "\<exists>a. int_mul_float n c435_6 = Inr a \<and> a \<noteq> NaN"
  by (simp add: int_mul_float_in_range [OF assms])

lemma int_mul_float_Inr_iff:
  "(\<exists>a. int_mul_float n c435_6 = Inr a) \<longleftrightarrow> \<bar>n\<bar> < float_int_limit"
proof (cases "\<bar>n\<bar> < float_int_limit")
  case True
  then show ?thesis using int_mul_float_defined [OF True] by auto
next
  case False
  then have "float_int_limit \<le> \<bar>n\<bar>" by simp
  then have "int_mul_float n c435_6 = Inl OverflowError" by (rule int_mul_float_overflow)
  with False show ?thesis by simp
qed

lemma int_mul_float_Inl_iff:
  "int_mul_float n c435_6 = Inl e \<longleftrightarrow> e = OverflowError \<and> float_int_limit \<le> \<bar>n\<bar>"
proof (cases "\<bar>n\<bar> < float_int_limit")
  case True
  then show ?thesis using int_mul_float_defined [OF True] by auto
next
  case False
  then have "float_int_limit \<le> \<bar>n\<bar>" by simp
  then show ?thesis using int_mul_float_overflow [of n] by auto
qed

text \<open>Powers of two are binary64 numbers.\<close>

lemma round_nearest_two_powi:
  assumes "- 1022 \<le> e"
  shows "round_nearest (2 powi e) = 2 powi e"
proof -
  have d: "(2::rat) powi e / 2 powi (e - 52) = of_int (2 ^ 52)"
  proof -
    have "(2::rat) powi e = 2 powi 52 * 2 powi (e - 52)"
      using power_int_add [of "2::rat" 52 "e - 52"] by simp
    then show ?thesis by simp
  qed
  have "round_nearest (2 powi e) = of_int (2 ^ 52) * 2 powi (e - 52)"
  proof (rule round_nearest_eval)
    show "(2::rat) powi e \<le> \<bar>2 powi e\<bar>" by simp
    show "\<bar>(2::rat) powi e\<bar> < 2 powi (e + 1)" by (simp add: two_powi_less_iff)
    show "- 1022 \<le> e" by fact
    show "\<bar>(2::rat) powi e / 2 powi (e - 52) - of_int (2 ^ 52)\<bar> < 1 / 2"
      by (simp only: d)
  qed
  also have "\<dots> = 2 powi e" using power_int_add [of "2::rat" 52 "e - 52"] by simp
  finally show ?thesis .
qed

lemma round_nearest_abs_le:
  assumes "\<bar>x\<bar> \<le> 2 powi e" "- 1022 \<le> e"
  shows "\<bar>round_nearest x\<bar> \<le> 2 powi e"
proof -
  have "x \<le> 2 powi e" "- (2 powi e) \<le> x" using assms(1) by linarith+
  then have "round_nearest x \<le> round_nearest (2 powi e)"
    "round_nearest (- (2 powi e)) \<le> round_nearest x"
    by (simp_all only: round_nearest_mono)
  then show ?thesis
    by (simp add: round_nearest_minus round_nearest_two_powi [OF assms(2)] abs_le_iff)
qed

lemma c_le_512: "(3831578120473805 / 8796093022208 :: rat) \<le> 2 powi 9"
  by simp

lemma product_small:
  assumes "\<bar>n\<bar> \<le> 2 ^ 1000"
  shows "\<bar>round_nearest (of_int n) * (3831578120473805 / 8796093022208)\<bar> \<le> 2 powi 1023"
proof -
  have "(of_int \<bar>n\<bar> :: rat) \<le> of_int (2 ^ 1000)" using assms by (simp only: of_int_le_iff)
  then have "\<bar>of_int n :: rat\<bar> \<le> 2 powi 1000"
    by (simp only: of_int_power of_int_numeral power_int_numeral of_int_abs)
  then have a: "\<bar>round_nearest (of_int n)\<bar> \<le> 2 powi 1000"
    by (rule round_nearest_abs_le) simp
  have "\<bar>round_nearest (of_int n) * (3831578120473805 / 8796093022208)\<bar>
      = \<bar>round_nearest (of_int n)\<bar> * (3831578120473805 / 8796093022208)"
    by (simp add: abs_mult)
  also have "\<dots> \<le> 2 powi 1000 * 2 powi 9"
    by (rule mult_mono [OF a c_le_512]) simp_all
  also have "\<dots> = 2 powi (1000 + 9)" by (rule power_int_add [symmetric]) simp
  also have "\<dots> \<le> 2 powi 1023" by (rule two_powi_mono) simp
  finally show ?thesis .
qed

lemma le_2_1000_in_range:
  assumes "\<bar>n\<bar> \<le> 2 ^ 1000"
  shows "\<bar>n\<bar> < float_int_limit"
proof -
  have "(2::int) ^ 1000 \<le> 2 ^ 1023" by (rule power_increasing) simp_all
  with assms have "\<bar>n\<bar> \<le> 2 ^ 1023" by linarith
  then show ?thesis by (rule int_to_float_small)
qed

lemma int_mul_float_finite:
  assumes "\<bar>n\<bar> \<le> 2 ^ 1000"
  shows "int_mul_float n c435_6 =
    Inr (Finite (round_nearest (round_nearest (of_int n) * (3831578120473805 / 8796093022208))))"
  using small_finite [OF product_small [OF assms]]
  by (simp add: int_mul_float_in_range [OF le_2_1000_in_range [OF assms]])

section \<open>The square footage of an int\<close>

lemma calculate_room_config_in_range:
  assumes "\<bar>n\<bar> < float_int_limit"
  shows "\<exists>s. int_mul_float n c435_6 = Inr s \<and> s \<noteq> NaN
    \<and> calculate_room_config n = Inr (room_config_of_sqft s)"
  using int_mul_float_defined [OF assms] by (auto simp: calculate_room_config_def)

lemma calculate_room_config_overflow:
  assumes "float_int_limit \<le> \<bar>n\<bar>"
  shows "calculate_room_config n = Inl OverflowError"
  by (simp add: calculate_room_config_def int_mul_float_overflow [OF assms])

lemma calculate_room_config_Inr_iff:
  "(\<exists>rc. calculate_room_config n = Inr rc) \<longleftrightarrow> \<bar>n\<bar> < float_int_limit"
proof (cases "\<bar>n\<bar> < float_int_limit")
  case True
  then show ?thesis using calculate_room_config_in_range [OF True] by auto
next
  case False
  then have "float_int_limit \<le> \<bar>n\<bar>" by simp
  then have "calculate_room_config n = Inl OverflowError" by (rule calculate_room_config_overflow)
  with False show ?thesis by simp
qed

lemma calculate_room_config_Inl_iff:
  "calculate_room_config n = Inl e \<longleftrightarrow> e = OverflowError \<and> float_int_limit \<le> \<bar>n\<bar>"
proof (cases "\<bar>n\<bar> < float_int_limit")
  case True
  then show ?thesis using calculate_room_config_in_range [OF True] by auto
next
  case False
  then have "float_int_limit \<le> \<bar>n\<bar>" by simp
  then show ?thesis using calculate_room_config_overflow [of n] by auto
qed

lemma float_gt_int_iff: "s \<noteq> NaN \<Longrightarrow> float_gt_int s k = (\<not> float_le_int s k)"
  by (cases s) auto

lemma counts_of_sqft:
  "(Bedrooms (room_config_of_sqft s), Bathrooms (room_config_of_sqft s),
    Kitchen (room_config_of_sqft s), Hall (room_config_of_sqft s)) =
     (if float_le_int s 1000 then (2, 1, 1, 1)
      else if float_le_int s 2000 then (3, 2, 1, 1) else (4, 3, 2, 2))"
  by (simp add: room_config_of_sqft_def)

lemma counts_of_land_cents:
  assumes "\<bar>n\<bar> < float_int_limit"
  shows "\<exists>rc. calculate_room_config n = Inr rc \<and>
    (Bedrooms rc, Bathrooms rc, Kitchen rc, Hall rc) =
      (if n \<le> 2 then (2, 1, 1, 1) else if n \<le> 4 then (3, 2, 1, 1) else (4, 3, 2, 2))"
proof -
  obtain s where s: "int_mul_float n c435_6 = Inr s"
    and c: "calculate_room_config n = Inr (room_config_of_sqft s)"
    using calculate_room_config_in_range [OF assms] by blast
  have 1: "float_le_int s 1000 \<longleftrightarrow> n \<le> 2" using assms s by (rule sqft_le_1000_iff)
  have 2: "float_le_int s 2000 \<longleftrightarrow> n \<le> 4" using assms s by (rule sqft_le_2000_iff)
  show ?thesis using c counts_of_sqft [of s] by (simp only: 1 2) blast
qed

lemma huge_out_of_range: "float_int_limit \<le> \<bar>10 ^ 400\<bar>"
  by (simp add: float_int_limit_def)

lemma huge_negative_out_of_range: "float_int_limit \<le> \<bar>- (10 ^ 400)\<bar>"
  using huge_out_of_range by (simp only: abs_minus_cancel)

lemma dimensions_of_land_cents:
  assumes "\<bar>n\<bar> < float_int_limit"
  shows "create_floor_plan n house_type rc =
    Inr (if n \<le> 2 then (30, 35) else if n \<le> 4 then (40, 50) else (50, 70))"
proof -
  obtain s where s: "int_mul_float n c435_6 = Inr s"
    using int_mul_float_defined [OF assms] by blast
  have 1: "float_le_int s 1000 \<longleftrightarrow> n \<le> 2" using assms s by (rule sqft_le_1000_iff)
  have 2: "float_le_int s 2000 \<longleftrightarrow> n \<le> 4" using assms s by (rule sqft_le_2000_iff)
  show ?thesis by (simp add: create_floor_plan_def s 1 2)
qed

section \<open>The lookup tables\<close>




section \<open>Monotone room counts\<close>

text \<open>
  Claim C2, as amended.  For all land areas \<open>A1 \<le> A2\<close> that both convert to a float, the
  computed square footage of \<open>A1\<close> is at most that of \<open>A2\<close>, both calls of
  \<open>calculate_room_config\<close> return, and each of Bedrooms, Bathrooms, Kitchen and Hall for
  \<open>A1\<close> is at most the one for \<open>A2\<close>.
\<close>

theorem room_counts_monotone:
  assumes "a1 \<le> a2" "\<bar>a1\<bar> < float_int_limit" "\<bar>a2\<bar> < float_int_limit"
  shows "\<exists>s1 s2 r1 r2. int_mul_float a1 c435_6 = Inr s1 \<and> int_mul_float a2 c435_6 = Inr s2
     \<and> float_le s1 s2
     \<and> calculate_room_config a1 = Inr r1 \<and> calculate_room_config a2 = Inr r2
     \<and> Bedrooms r1 \<le> Bedrooms r2 \<and> Bathrooms r1 \<le> Bathrooms r2
     \<and> Kitchen r1 \<le> Kitchen r2 \<and> Hall r1 \<le> Hall r2"
proof -
  obtain s1 where s1: "int_mul_float a1 c435_6 = Inr s1"
    using int_mul_float_defined [OF assms(2)] by blast
  obtain s2 where s2: "int_mul_float a2 c435_6 = Inr s2"
    using int_mul_float_defined [OF assms(3)] by blast
  have le: "float_le s1 s2" using assms s1 s2 by (rule int_mul_float_mono)
  obtain r1 where r1: "calculate_room_config a1 = Inr r1"
    and k1: "(Bedrooms r1, Bathrooms r1, Kitchen r1, Hall r1) =
      (if a1 \<le> 2 then (2, 1, 1, 1) else if a1 \<le> 4 then (3, 2, 1, 1) else (4, 3, 2, 2))"
    using counts_of_land_cents [OF assms(2)] by blast
  obtain r2 where r2: "calculate_room_config a2 = Inr r2"
    and k2: "(Bedrooms r2, Bathrooms r2, Kitchen r2, Hall r2) =
      (if a2 \<le> 2 then (2, 1, 1, 1) else if a2 \<le> 4 then (3, 2, 1, 1) else (4, 3, 2, 2))"
    using counts_of_land_cents [OF assms(3)] by blast
  have "Bedrooms r1 \<le> Bedrooms r2 \<and> Bathrooms r1 \<le> Bathrooms r2
     \<and> Kitchen r1 \<le> Kitchen r2 \<and> Hall r1 \<le> Hall r2"
    using k1 k2 assms(1) by (auto split: if_splits)
  with s1 s2 le r1 r2 show ?thesis by blast
qed

theorem room_counts_monotone_witness:
  "(2::int) \<le> 5 \<and> \<bar>2\<bar> < float_int_limit \<and> \<bar>5\<bar> < float_int_limit
   \<and> (\<exists>r1 r2. calculate_room_config 2 = Inr r1 \<and> calculate_room_config 5 = Inr r2
        \<and> float_le (Finite (3831578120473805 / 4398046511104)) (Finite 2178)
        \<and> Bedrooms r1 \<le> Bedrooms r2 \<and> Bathrooms r1 \<le> Bathrooms r2
        \<and> Kitchen r1 \<le> Kitchen r2 \<and> Hall r1 \<le> Hall r2)"
proof -
  have a: "(2::int) \<le> 5" by simp
  have b: "\<bar>2\<bar> < float_int_limit" by (rule tiny_in_range) simp
  have c: "\<bar>5\<bar> < float_int_limit" by (rule tiny_in_range) simp
  obtain s1 s2 r1 r2 where "int_mul_float 2 c435_6 = Inr s1" "int_mul_float 5 c435_6 = Inr s2"
    "float_le s1 s2" "calculate_room_config 2 = Inr r1" "calculate_room_config 5 = Inr r2"
    "Bedrooms r1 \<le> Bedrooms r2" "Bathrooms r1 \<le> Bathrooms r2"
    "Kitchen r1 \<le> Kitchen r2" "Hall r1 \<le> Hall r2"
    using room_counts_monotone [OF a b c] by blast
  then show ?thesis using a b c sqft_2 sqft_5 by auto
qed

text \<open>The claim as stated fails for \<open>A1 = 1\<close> and \<open>A2 = 10\<^sup>4\<^sup>0\<^sup>0\<close>: the second call raises, so
  there are no room counts to compare.\<close>

theorem room_counts_monotone_counterexample:
  "(1::int) \<le> 10 ^ 400 \<and> (\<exists>r1. calculate_room_config 1 = Inr r1)
   \<and> \<not> (\<exists>r2. calculate_room_config (10 ^ 400) = Inr r2)"
proof -
  have "\<bar>1\<bar> < float_int_limit" by (rule tiny_in_range) simp
  then have "\<exists>r1. calculate_room_config 1 = Inr r1"
    by (simp only: calculate_room_config_Inr_iff)
  moreover have "\<not> (\<exists>r2. calculate_room_config (10 ^ 400) = Inr r2)"
    using huge_out_of_range by (simp only: calculate_room_config_Inr_iff not_less)
  ultimately show ?thesis by simp
qed

section \<open>The smallest and the largest tier\<close>

text \<open>
  Claim C3, as amended.  For every land area \<open>A\<close> with \<open>A \<le> 1000 / 435.6\<close> that converts to
  a float (\<open>-(2\<^sup>1\<^sup>0\<^sup>2\<^sup>4 - 2\<^sup>9\<^sup>7\<^sup>0) < A\<close>), \<open>calculate_room_config(A)\<close> returns the 2-bedroom
  record; and for every \<open>A \<le> 1000 / 435.6\<close>, \<open>get_house_type(A)\<close> returns
  "Single Floor House".
\<close>

theorem smallest_tier:
  assumes "of_int land_cents \<le> (1000 :: rat) / (4356 / 10)"
  shows "get_house_type land_cents = ''Single Floor House''
    \<and> (- float_int_limit < land_cents \<longrightarrow>
         (\<exists>rc. calculate_room_config land_cents = Inr rc
            \<and> Bedrooms rc = 2 \<and> Bathrooms rc = 1 \<and> Kitchen rc = 1 \<and> Hall rc = 1
            \<and> Parking rc = ''1 compact'' \<and> Balcony rc = ''Small balcony''))"
proof -
  have "(of_int land_cents :: rat) < of_int 3" using assms by simp
  then have "land_cents < 3" by (simp only: of_int_less_iff)
  then have le: "land_cents \<le> 2" by simp
  then have h: "get_house_type land_cents = ''Single Floor House''"
    by (simp add: get_house_type_def)
  have "\<exists>rc. calculate_room_config land_cents = Inr rc
      \<and> Bedrooms rc = 2 \<and> Bathrooms rc = 1 \<and> Kitchen rc = 1 \<and> Hall rc = 1
      \<and> Parking rc = ''1 compact'' \<and> Balcony rc = ''Small balcony''"
    if lo: "- float_int_limit < land_cents"
  proof -
    have "land_cents < float_int_limit" using le float_int_limit_pos tiny_in_range [of 2] by simp
    with lo have r: "\<bar>land_cents\<bar> < float_int_limit" by simp
    obtain s where s: "int_mul_float land_cents c435_6 = Inr s"
      and c: "calculate_room_config land_cents = Inr (room_config_of_sqft s)"
      using calculate_room_config_in_range [OF r] by blast
    have "float_le_int s 1000" using sqft_le_1000_iff [OF r s] le by simp
    then show ?thesis using c by (simp add: room_config_of_sqft_def)
  qed
  with h show ?thesis by blast
qed

theorem smallest_tier_witness:
  "of_int 2 \<le> (1000 :: rat) / (4356 / 10) \<and> - float_int_limit < 2
   \<and> get_house_type 2 = ''Single Floor House''
   \<and> (\<exists>rc. calculate_room_config 2 = Inr rc
        \<and> Bedrooms rc = 2 \<and> Bathrooms rc = 1 \<and> Kitchen rc = 1 \<and> Hall rc = 1)"
proof -
  have a: "of_int 2 \<le> (1000 :: rat) / (4356 / 10)" by simp
  have b: "- float_int_limit < 2" using float_int_limit_pos by simp
  show ?thesis using smallest_tier [OF a] a b by blast
qed

text \<open>The claim as stated fails at \<open>A = -10\<^sup>4\<^sup>0\<^sup>0\<close>: it is below \<open>1000 / 435.6\<close>, and
  \<open>calculate_room_config\<close> raises.\<close>

theorem smallest_tier_counterexample:
  "of_int (- (10 ^ 400)) \<le> (1000 :: rat) / (4356 / 10)
   \<and> calculate_room_config (- (10 ^ 400)) = Inl OverflowError"
proof -
  have "(of_int (- (10 ^ 400)) :: rat) \<le> 0" by simp
  then have "of_int (- (10 ^ 400)) \<le> (1000 :: rat) / (4356 / 10)" by simp
  then show ?thesis
    using calculate_room_config_overflow [OF huge_negative_out_of_range] by simp
qed

text \<open>
  Claim C4, as amended.  For \<open>land_cents > 10\<close>, \<open>get_house_type\<close> returns "Villa"; whenever
  \<open>sqft = land_cents * 435.6\<close> is computed and \<open>sqft > 2000\<close>, which is the case exactly for
  the \<open>land_cents \<ge> 5\<close> that convert to a float, \<open>calculate_room_config\<close> returns the
  4-bedroom record.  The only error of \<open>calculate_room_config\<close> is the \<open>OverflowError\<close> of
  the conversion to float, raised exactly when \<open>|land_cents| \<ge> 2\<^sup>1\<^sup>0\<^sup>2\<^sup>4 - 2\<^sup>9\<^sup>7\<^sup>0\<close>.
\<close>

theorem largest_tier:
  "(10 < n \<longrightarrow> get_house_type n = ''Villa'')
   \<and> (\<forall>sqft. int_mul_float n c435_6 = Inr sqft \<longrightarrow>
        float_gt_int sqft 2000 = (5 \<le> n)
        \<and> (float_gt_int sqft 2000 \<longrightarrow>
             (\<exists>rc. calculate_room_config n = Inr rc
                \<and> Bedrooms rc = 4 \<and> Bathrooms rc = 3 \<and> Kitchen rc = 2 \<and> Hall rc = 2)))
   \<and> (\<forall>e. (calculate_room_config n = Inl e) = (e = OverflowError \<and> float_int_limit \<le> \<bar>n\<bar>))
   \<and> (\<exists>rc. calculate_room_config n = Inr rc) = (\<bar>n\<bar> < float_int_limit)"
proof -
  have 1: "10 < n \<longrightarrow> get_house_type n = ''Villa''" by (simp add: get_house_type_def)
  have 2: "float_gt_int sqft 2000 = (5 \<le> n)
        \<and> (float_gt_int sqft 2000 \<longrightarrow>
             (\<exists>rc. calculate_room_config n = Inr rc
                \<and> Bedrooms rc = 4 \<and> Bathrooms rc = 3 \<and> Kitchen rc = 2 \<and> Hall rc = 2))"
    if s: "int_mul_float n c435_6 = Inr sqft" for sqft
  proof -
    have r: "\<bar>n\<bar> < float_int_limit" using s int_mul_float_Inr_iff [of n] by blast
    have nn: "sqft \<noteq> NaN" using int_mul_float_defined [OF r] s by auto
    have g: "float_gt_int sqft 2000 = (5 \<le> n)"
      using float_gt_int_iff [OF nn, of 2000] sqft_le_2000_iff [OF r s] by auto
    have "calculate_room_config n = Inr (room_config_of_sqft sqft)"
      by (simp add: calculate_room_config_def s)
    moreover have "\<not> float_le_int sqft 2000 \<Longrightarrow> \<not> float_le_int sqft 1000"
      using sqft_le_2000_iff [OF r s] sqft_le_1000_iff [OF r s] by simp
    ultimately show ?thesis
      using g float_gt_int_iff [OF nn, of 2000] by (auto simp: room_config_of_sqft_def)
  qed
  show ?thesis
    using 1 2 calculate_room_config_Inl_iff [of n] calculate_room_config_Inr_iff [of n]
    by blast
qed

theorem largest_tier_witness:
  "(10::int) < 11 \<and> get_house_type 11 = ''Villa'' \<and> \<bar>11\<bar> < float_int_limit
   \<and> (\<exists>sqft rc. int_mul_float 11 c435_6 = Inr sqft \<and> float_gt_int sqft 2000
        \<and> calculate_room_config 11 = Inr rc
        \<and> Bedrooms rc = 4 \<and> Bathrooms rc = 3 \<and> Kitchen rc = 2 \<and> Hall rc = 2)"
proof -
  have r: "\<bar>11\<bar> < float_int_limit" by (rule tiny_in_range) simp
  obtain sqft where s: "int_mul_float 11 c435_6 = Inr sqft"
    using int_mul_float_defined [OF r] by blast
  have "float_gt_int sqft 2000" using largest_tier [of 11] s by simp
  then show ?thesis using largest_tier [of 11] s r by auto
qed

text \<open>The claim as stated fails at \<open>land_cents = 10\<^sup>4\<^sup>0\<^sup>0\<close>: it exceeds every threshold and
  \<open>calculate_room_config\<close> raises instead of defaulting to the largest tier.\<close>

theorem largest_tier_counterexample:
  "(10::int) < 10 ^ 400 \<and> get_house_type (10 ^ 400) = ''Villa''
   \<and> calculate_room_config (10 ^ 400) = Inl OverflowError"
  using calculate_room_config_overflow [OF huge_out_of_range]
  by (simp add: get_house_type_def)

section \<open>Thresholds and non-positive areas\<close>

text \<open>
  Claim C5.  At a threshold the lower tier is chosen, the comparisons being inclusive:
  \<open>get_house_type(5)\<close> is "Single Floor House" and \<open>get_house_type(10)\<close> is "Duplex", and
  in \<open>calculate_room_config\<close> a square footage of exactly 1000 selects the 2-bedroom
  record and one of exactly 2000 the 3-bedroom record.
\<close>

theorem threshold_inclusive:
  "get_house_type 5 = ''Single Floor House'' \<and> get_house_type 10 = ''Duplex''
   \<and> Bedrooms (room_config_of_sqft (Finite 1000)) = 2
   \<and> Bathrooms (room_config_of_sqft (Finite 1000)) = 1
   \<and> Kitchen (room_config_of_sqft (Finite 1000)) = 1
   \<and> Hall (room_config_of_sqft (Finite 1000)) = 1
   \<and> Bedrooms (room_config_of_sqft (Finite 2000)) = 3
   \<and> Bathrooms (room_config_of_sqft (Finite 2000)) = 2
   \<and> Kitchen (room_config_of_sqft (Finite 2000)) = 1
   \<and> Hall (room_config_of_sqft (Finite 2000)) = 1
   \<and> (\<forall>n sqft. int_mul_float n c435_6 = Inr sqft \<longrightarrow>
        calculate_room_config n = Inr (room_config_of_sqft sqft))"
  by (simp add: get_house_type_def room_config_of_sqft_def calculate_room_config_def)

theorem threshold_inclusive_witness:
  "int_mul_float 5 c435_6 = Inr (Finite 2178)
   \<and> calculate_room_config 5 = Inr (room_config_of_sqft (Finite 2178))
   \<and> Bedrooms (room_config_of_sqft (Finite 2178)) = 4"
  using threshold_inclusive sqft_5 by (simp add: room_config_of_sqft_def)

text \<open>
  Claim C6, as amended.  For every non-positive \<open>land_cents\<close>, \<open>get_house_type\<close> returns
  "Single Floor House"; for every non-positive \<open>land_cents\<close> that converts to a float
  (\<open>-(2\<^sup>1\<^sup>0\<^sup>2\<^sup>4 - 2\<^sup>9\<^sup>7\<^sup>0) < land_cents\<close>), \<open>calculate_room_config\<close> returns the 2-bedroom
  record.  \<open>get_house_type\<close> returns one of its three strings for every int;
  \<open>calculate_room_config\<close> returns exactly for \<open>|land_cents| < 2\<^sup>1\<^sup>0\<^sup>2\<^sup>4 - 2\<^sup>9\<^sup>7\<^sup>0\<close> and raises
  \<open>OverflowError\<close> for every other int.
\<close>

theorem non_positive_area:
  "(n \<le> 0 \<longrightarrow> get_house_type n = ''Single Floor House'')
   \<and> (n \<le> 0 \<and> - float_int_limit < n \<longrightarrow>
        (\<exists>rc. calculate_room_config n = Inr rc
           \<and> Bedrooms rc = 2 \<and> Bathrooms rc = 1 \<and> Kitchen rc = 1 \<and> Hall rc = 1))
   \<and> (get_house_type n = ''Single Floor House'' \<or> get_house_type n = ''Duplex''
        \<or> get_house_type n = ''Villa'')
   \<and> (\<exists>rc. calculate_room_config n = Inr rc) = (\<bar>n\<bar> < float_int_limit)
   \<and> (calculate_room_config n = Inl OverflowError) = (float_int_limit \<le> \<bar>n\<bar>)"
proof -
  have 1: "n \<le> 0 \<longrightarrow> get_house_type n = ''Single Floor House''"
    by (simp add: get_house_type_def)
  have 2: "\<exists>rc. calculate_room_config n = Inr rc
           \<and> Bedrooms rc = 2 \<and> Bathrooms rc = 1 \<and> Kitchen rc = 1 \<and> Hall rc = 1"
    if "n \<le> 0 \<and> - float_int_limit < n"
  proof -
    have r: "\<bar>n\<bar> < float_int_limit" using that by simp
    show ?thesis using counts_of_land_cents [OF r] that by auto
  qed
  have 3: "get_house_type n = ''Single Floor House'' \<or> get_house_type n = ''Duplex''
        \<or> get_house_type n = ''Villa''"
    by (simp add: get_house_type_def)
  show ?thesis
    using 1 2 3 calculate_room_config_Inl_iff [of n OverflowError]
      calculate_room_config_Inr_iff [of n]
    by blast
qed

theorem non_positive_area_witness:
  "(- 7 :: int) \<le> 0 \<and> - float_int_limit < - 7
   \<and> get_house_type (- 7) = ''Single Floor House''
   \<and> (\<exists>rc. calculate_room_config (- 7) = Inr rc
        \<and> Bedrooms rc = 2 \<and> Bathrooms rc = 1 \<and> Kitchen rc = 1 \<and> Hall rc = 1)"
proof -
  have "\<bar>- 7\<bar> < float_int_limit" by (rule tiny_in_range) simp
  then have b: "- float_int_limit < - 7" by simp
  show ?thesis using non_positive_area [of "- 7"] b by simp
qed

text \<open>The claim as stated fails at \<open>land_cents = -10\<^sup>4\<^sup>0\<^sup>0\<close>: a non-positive int for which
  \<open>calculate_room_config\<close> raises.\<close>

theorem non_positive_area_counterexample:
  "- (10 ^ 400) \<le> (0::int) \<and> get_house_type (- (10 ^ 400)) = ''Single Floor House''
   \<and> calculate_room_config (- (10 ^ 400)) = Inl OverflowError"
  using calculate_room_config_overflow [OF huge_negative_out_of_range]
  by (simp add: get_house_type_def)

section \<open>The simulated floor plans\<close>

text \<open>
  Claim C8, as amended.  Without the Blender API, \<open>create_floor_plan\<close> and
  \<open>create_detailed_floor_plan\<close> have the same outcome for every \<open>land_cents\<close>, whatever
  \<open>house_type\<close> and \<open>room_config\<close> each is given: both raise \<open>OverflowError\<close> when
  \<open>|land_cents| \<ge> 2\<^sup>1\<^sup>0\<^sup>2\<^sup>4 - 2\<^sup>9\<^sup>7\<^sup>0\<close>, and otherwise both return the same pair, which is
  (30, 35) for \<open>land_cents \<le> 2\<close>, (40, 50) for 3 and 4, and (50, 70) from 5 on.
\<close>

theorem simulated_plans_agree:
  "create_floor_plan n house_type rc = create_detailed_floor_plan n house_type' rc'
   \<and> (create_floor_plan n house_type rc = Inl OverflowError) = (float_int_limit \<le> \<bar>n\<bar>)
   \<and> (create_floor_plan n house_type rc = Inr (30, 35)) = (- float_int_limit < n \<and> n \<le> 2)
   \<and> (create_floor_plan n house_type rc = Inr (40, 50)) = (3 \<le> n \<and> n \<le> 4)
   \<and> (create_floor_plan n house_type rc = Inr (50, 70)) = (5 \<le> n \<and> n < float_int_limit)"
proof -
  have e: "create_floor_plan n house_type rc = create_detailed_floor_plan n house_type' rc'"
    by (simp add: create_floor_plan_def create_detailed_floor_plan_def)
  have t: "\<bar>k\<bar> \<le> 4096 \<Longrightarrow> \<bar>k\<bar> < float_int_limit" for k by (rule tiny_in_range)
  show ?thesis
  proof (cases "\<bar>n\<bar> < float_int_limit")
    case True
    have "create_floor_plan n house_type rc =
        Inr (if n \<le> 2 then (30, 35) else if n \<le> 4 then (40, 50) else (50, 70))"
      using True by (rule dimensions_of_land_cents)
    then show ?thesis using e True by auto
  next
    case False
    then have o: "float_int_limit \<le> \<bar>n\<bar>" by simp
    have c: "create_floor_plan n house_type rc = Inl OverflowError"
      by (simp add: create_floor_plan_def int_mul_float_overflow [OF o])
    have e': "create_detailed_floor_plan n house_type' rc' = Inl OverflowError"
      using e c by simp
    have "\<not> (- float_int_limit < n \<and> n \<le> 2)" "\<not> (3 \<le> n \<and> n \<le> 4)"
      "\<not> (5 \<le> n \<and> n < float_int_limit)"
      using o t [of 2] t [of n] float_int_limit_pos by auto
    then show ?thesis by (simp add: c e' o)
  qed
qed

text \<open>The claim as stated fails at \<open>land_cents = 10\<^sup>4\<^sup>0\<^sup>0\<close>: neither function returns a
  pair there.\<close>

theorem simulated_plans_counterexample:
  "\<forall>house_type rc. create_floor_plan (10 ^ 400) house_type rc = Inl OverflowError
     \<and> create_detailed_floor_plan (10 ^ 400) house_type rc = Inl OverflowError"
  using int_mul_float_overflow [OF huge_out_of_range]
  by (simp add: create_floor_plan_def create_detailed_floor_plan_def)

section \<open>The fallback GLB\<close>

text \<open>
  Claim C9, as amended.  For every int \<open>land_cents\<close> the four conditions of the chain
  (\<open>land_cents <= 3\<close>, \<open>4 <= land_cents <= 6\<close>, \<open>7 <= land_cents <= 10\<close>, otherwise, that is
  \<open>10 < land_cents\<close>) partition the integers: exactly one of them holds, and in
  \<open>download_3d_model\<close> each selects its own file among \<open>1bhk.glb\<close>, \<open>2bhk.glb\<close>,
  \<open>3bhk.glb\<close>, \<open>villa.glb\<close>.  \<open>result\<close> selects the same file as \<open>download_3d_model\<close>
  exactly for \<open>|land_cents| < 2\<^sup>1\<^sup>0\<^sup>2\<^sup>4 - 2\<^sup>9\<^sup>7\<^sup>0\<close>; for every other int it raises
  \<open>OverflowError\<close> before it selects a file.
\<close>

theorem source_glb_agreement:
  "length (filter (\<lambda>b. b)
      [n \<le> 3, 4 \<le> n \<and> n \<le> 6, 7 \<le> n \<and> n \<le> 10, 10 < n]) = 1
   \<and> (download_source_glb n = ''1bhk.glb'') = (n \<le> 3)
   \<and> (download_source_glb n = ''2bhk.glb'') = (4 \<le> n \<and> n \<le> 6)
   \<and> (download_source_glb n = ''3bhk.glb'') = (7 \<le> n \<and> n \<le> 10)
   \<and> (download_source_glb n = ''villa.glb'') = (10 < n)
   \<and> (result_source_glb n = Inr (download_source_glb n)) = (\<bar>n\<bar> < float_int_limit)
   \<and> (result_source_glb n = Inl OverflowError) = (float_int_limit \<le> \<bar>n\<bar>)"
proof -
  have p: "length (filter (\<lambda>b. b)
      [n \<le> 3, 4 \<le> n \<and> n \<le> 6, 7 \<le> n \<and> n \<le> 10, 10 < n]) = 1
   \<and> (download_source_glb n = ''1bhk.glb'') = (n \<le> 3)
   \<and> (download_source_glb n = ''2bhk.glb'') = (4 \<le> n \<and> n \<le> 6)
   \<and> (download_source_glb n = ''3bhk.glb'') = (7 \<le> n \<and> n \<le> 10)
   \<and> (download_source_glb n = ''villa.glb'') = (10 < n)"
    by (auto simp: download_source_glb_def)
  have r: "(result_source_glb n = Inr (download_source_glb n)) = (\<bar>n\<bar> < float_int_limit)
   \<and> (result_source_glb n = Inl OverflowError) = (float_int_limit \<le> \<bar>n\<bar>)"
  proof (cases "\<bar>n\<bar> < float_int_limit")
    case True
    then obtain rc where "calculate_room_config n = Inr rc"
      using calculate_room_config_Inr_iff [of n] by blast
    then show ?thesis using True by (simp add: result_source_glb_def download_source_glb_def)
  next
    case False
    then have "float_int_limit \<le> \<bar>n\<bar>" by simp
    then show ?thesis
      using calculate_room_config_overflow [of n] by (simp add: result_source_glb_def)
  qed
  from p r show ?thesis by blast
qed

text \<open>The claim as stated fails at \<open>land_cents = 10\<^sup>4\<^sup>0\<^sup>0\<close>: \<open>download_3d_model\<close> selects
  \<open>villa.glb\<close>, \<open>result\<close> raises and selects no file.\<close>

theorem source_glb_counterexample:
  "result_source_glb (10 ^ 400) = Inl OverflowError
   \<and> download_source_glb (10 ^ 400) = ''villa.glb''"
  using calculate_room_config_overflow [OF huge_out_of_range]
  by (simp add: result_source_glb_def download_source_glb_def)

section \<open>The fallback reports\<close>

lemma view_sqft_finite:
  assumes "\<bar>n\<bar> \<le> 2 ^ 1000"
  shows "\<exists>k. view_sqft n = Inr k"
  by (simp add: view_sqft_def int_mul_float_finite [OF assms])

lemma house_type_variants:
  "summary_variant (get_house_type n) = Variant_Villa
   \<and> technical_variant (get_house_type n) = Variant_Villa
   \<and> cost_variant (get_house_type n) = Variant_Villa"
  by (simp add: summary_variant_def technical_variant_def cost_variant_def get_house_type_def
      py_upper_def upper_char_def startswith_def)

text \<open>
  Claim C10, as amended.  Every string returned by \<open>get_house_type\<close> fails the uppercased
  \<open>startswith('1BHK')\<close>, \<open>startswith('2BHK')\<close> and \<open>startswith('3BHK')\<close> tests, so the
  1BHK, 2BHK and 3BHK branches of the fallback reports are unreachable: whenever the
  fallback path builds its reports, all three are the Villa variants.  It builds them
  exactly when \<open>land_cents * 435.6\<close> is a finite float, which is the case for every
  \<open>|land_cents| \<le> 2\<^sup>1\<^sup>0\<^sup>0\<^sup>0\<close>, and it raises \<open>OverflowError\<close> before the report block
  exactly when \<open>|land_cents| \<ge> 2\<^sup>1\<^sup>0\<^sup>2\<^sup>4 - 2\<^sup>9\<^sup>7\<^sup>0\<close>.
\<close>

theorem fallback_reports_villa:
  "\<not> startswith (py_upper (get_house_type n)) ''1BHK''
   \<and> \<not> startswith (py_upper (get_house_type n)) ''2BHK''
   \<and> \<not> startswith (py_upper (get_house_type n)) ''3BHK''
   \<and> summary_variant (get_house_type n) = Variant_Villa
   \<and> technical_variant (get_house_type n) = Variant_Villa
   \<and> cost_variant (get_house_type n) = Variant_Villa
   \<and> (\<forall>r. fallback_reports n = Inr (Some r) \<longrightarrow>
        summary r = Variant_Villa \<and> technical r = Variant_Villa \<and> cost r = Variant_Villa)
   \<and> (\<bar>n\<bar> \<le> 2 ^ 1000 \<longrightarrow>
        (\<exists>sqft. fallback_reports n =
           Inr (Some \<lparr>report_sqft = sqft, summary = Variant_Villa,
                      technical = Variant_Villa, cost = Variant_Villa\<rparr>)))
   \<and> (fallback_reports n = Inl OverflowError) = (float_int_limit \<le> \<bar>n\<bar>)
   \<and> (\<exists>r. fallback_reports n = Inr (Some r)) =
       (\<exists>x. int_mul_float n c435_6 = Inr (Finite x))"
proof -
  have 1: "\<not> startswith (py_upper (get_house_type n)) ''1BHK''
   \<and> \<not> startswith (py_upper (get_house_type n)) ''2BHK''
   \<and> \<not> startswith (py_upper (get_house_type n)) ''3BHK''"
    by (simp add: get_house_type_def py_upper_def upper_char_def startswith_def)
  have 2: "summary r = Variant_Villa \<and> technical r = Variant_Villa \<and> cost r = Variant_Villa"
    if "fallback_reports n = Inr (Some r)" for r
    using that house_type_variants [of n]
    by (auto simp: fallback_reports_def Let_def split: sum.splits)
  have 3: "\<exists>sqft. fallback_reports n =
           Inr (Some \<lparr>report_sqft = sqft, summary = Variant_Villa,
                      technical = Variant_Villa, cost = Variant_Villa\<rparr>)"
    if b: "\<bar>n\<bar> \<le> 2 ^ 1000"
  proof -
    obtain k where k: "view_sqft n = Inr k" using view_sqft_finite [OF b] by blast
    obtain rc where rc: "calculate_room_config n = Inr rc"
      using calculate_room_config_Inr_iff [of n] le_2_1000_in_range [OF b] by blast
    show ?thesis using house_type_variants [of n] by (simp add: fallback_reports_def k rc)
  qed
  have 4: "(fallback_reports n = Inl OverflowError) = (float_int_limit \<le> \<bar>n\<bar>)"
  proof (cases "\<bar>n\<bar> < float_int_limit")
    case True
    then obtain rc where "calculate_room_config n = Inr rc"
      using calculate_room_config_Inr_iff [of n] by blast
    then show ?thesis using True by (simp add: fallback_reports_def Let_def)
  next
    case False
    then have "float_int_limit \<le> \<bar>n\<bar>" by simp
    then show ?thesis
      using calculate_room_config_overflow [of n] by (simp add: fallback_reports_def)
  qed
  have 5: "(\<exists>r. fallback_reports n = Inr (Some r)) =
       (\<exists>x. int_mul_float n c435_6 = Inr (Finite x))"
  proof (cases "int_mul_float n c435_6")
    case (Inl e)
    then show ?thesis by (simp add: fallback_reports_def calculate_room_config_def)
  next
    case (Inr s)
    show ?thesis
      by (cases s)
        (simp_all add: fallback_reports_def calculate_room_config_def view_sqft_def Inr Let_def)
  qed
  show ?thesis using 1 2 3 4 5 house_type_variants [of n] by blast
qed

theorem fallback_reports_villa_witness:
  "\<bar>7\<bar> \<le> (2 ^ 1000 :: int)
   \<and> (\<exists>sqft. fallback_reports 7 =
        Inr (Some \<lparr>report_sqft = sqft, summary = Variant_Villa,
                   technical = Variant_Villa, cost = Variant_Villa\<rparr>))"
proof -
  have "(7::int) \<le> 2 ^ 3" by simp
  also have "(2::int) ^ 3 \<le> 2 ^ 1000" by (rule power_increasing) simp_all
  finally have b: "\<bar>7\<bar> \<le> (2 ^ 1000 :: int)" by simp
  show ?thesis using fallback_reports_villa [of 7] b by blast
qed

text \<open>The claim as stated fails at \<open>land_cents = 10\<^sup>4\<^sup>0\<^sup>0\<close>: the fallback path raises and
  produces no report.\<close>

theorem fallback_reports_counterexample:
  "fallback_reports (10 ^ 400) = Inl OverflowError"
  using calculate_room_config_overflow [OF huge_out_of_range]
  by (simp add: fallback_reports_def)

section \<open>The accuracy of the square footage\<close>












end
